theory Spec2Isabelle
  imports Complex_Main "HOL-Library.Multiset"
begin

section \<open>JavaScript numbers\<close>

text \<open>
  The program computes with JavaScript numbers. A number is modelled as not-a-number, an
  infinity or a finite value. Finite values are reals and finite arithmetic is exact: the
  rounding of IEEE doubles, overflow of finite operands to an infinity and the sign of
  zero are not modelled. Every theorem below is about the branch structure of the
  program and about not-a-number and the infinities, which the model has.
\<close>

datatype jsnum = NaN | NInf | Fin real | PInf

fun js_add :: "jsnum \<Rightarrow> jsnum \<Rightarrow> jsnum" where
  "js_add NaN y = NaN"
| "js_add x NaN = NaN"
| "js_add PInf NInf = NaN"
| "js_add NInf PInf = NaN"
| "js_add PInf y = PInf"
| "js_add x PInf = PInf"
| "js_add NInf y = NInf"
| "js_add x NInf = NInf"
| "js_add (Fin a) (Fin b) = Fin (a + b)"

fun js_neg :: "jsnum \<Rightarrow> jsnum" where
  "js_neg NaN = NaN"
| "js_neg NInf = PInf"
| "js_neg PInf = NInf"
| "js_neg (Fin a) = Fin (- a)"

definition js_sub :: "jsnum \<Rightarrow> jsnum \<Rightarrow> jsnum" where
  "js_sub x y = js_add x (js_neg y)"

text \<open>The sign of a number that is not NaN: -1, 0 or 1.\<close>

fun js_sign :: "jsnum \<Rightarrow> int" where
  "js_sign NaN = 0"
| "js_sign NInf = - 1"
| "js_sign PInf = 1"
| "js_sign (Fin a) = (if a < 0 then - 1 else if a = 0 then 0 else 1)"

definition signed_inf :: "int \<Rightarrow> jsnum" where
  "signed_inf s = (if s = 0 then NaN else if 0 < s then PInf else NInf)"

fun js_mul :: "jsnum \<Rightarrow> jsnum \<Rightarrow> jsnum" where
  "js_mul NaN y = NaN"
| "js_mul x NaN = NaN"
| "js_mul (Fin a) (Fin b) = Fin (a * b)"
| "js_mul x y = signed_inf (js_sign x * js_sign y)"

fun js_div :: "jsnum \<Rightarrow> jsnum \<Rightarrow> jsnum" where
  "js_div NaN y = NaN"
| "js_div x NaN = NaN"
| "js_div (Fin a) (Fin b) = (if b = 0 then signed_inf (js_sign (Fin a)) else Fin (a / b))"
| "js_div (Fin a) y = Fin 0"
| "js_div x (Fin b) = signed_inf (js_sign x * (if b < 0 then - 1 else 1))"
| "js_div x y = NaN"

text \<open>\<open>isNaN\<close> and truthiness of a number: 0 and NaN are falsy.\<close>

definition isNaN :: "jsnum \<Rightarrow> bool" where
  "isNaN x = (x = NaN)"

definition num_truthy :: "jsnum \<Rightarrow> bool" where
  "num_truthy x = (x \<noteq> NaN \<and> x \<noteq> Fin 0)"

text \<open>
  \<open>+x.toFixed(2)\<close>: \<open>toFixed\<close> writes NaN and the infinities by name and a value of
  magnitude at least \<open>10^21\<close> as \<open>String(x)\<close>; otherwise it takes the integer \<open>n\<close>
  nearest to \<open>|x| * 100\<close> (the larger one of two) and writes \<open>n / 100\<close> with the sign
  of \<open>x\<close>. The unary plus reads the string back.
\<close>

definition half_up :: "real \<Rightarrow> real" where
  "half_up a = real_of_int \<lfloor>a * 100 + 1 / 2\<rfloor> / 100"

definition round2 :: "real \<Rightarrow> real" where
  "round2 x = (if x < 0 then - half_up (- x) else half_up x)"

fun toFixed2 :: "jsnum \<Rightarrow> jsnum" where
  "toFixed2 (Fin x) = (if 10 ^ 21 \<le> \<bar>x\<bar> then Fin x else Fin (round2 x))"
| "toFixed2 x = x"

section \<open>Primitive values\<close>

text \<open>
  The input is data as JSON has it. A property that the program reads as an identifier,
  a name or an amount holds a primitive value: undefined (also when the property is
  absent), null, a boolean, a number or a string. Strings are lists of characters with
  codes below 256.
\<close>

datatype prim = Undefined | Null | Bool bool | Number jsnum | Str string

datatype error = InvalidInputError | MissingStrategyError | TypeError

subsection \<open>The string of a number\<close>

text \<open>
  \<open>Number::toString\<close>: with \<open>x = s * 10^(n - k)\<close> for a \<open>k\<close>-digit integer \<open>s\<close> not
  divisible by 10, the digits of \<open>s\<close> are written plainly when \<open>-6 < n <= 21\<close> and with
  an exponent otherwise. A double has at most 17 significant digits; a real with more is
  written with its first 17, rounded.
\<close>

definition digit_chars :: "char list" where
  "digit_chars = ''0123456789''"

function digits_of :: "int \<Rightarrow> string" where
  "digits_of n =
     (if n < 10 then [digit_chars ! nat n]
      else digits_of (n div 10) @ [digit_chars ! nat (n mod 10)])"
  by pat_completeness auto

termination digits_of
  by (relation "measure nat") auto

declare digits_of.simps [simp del]

text \<open>The integer \<open>n\<close> with \<open>10^(n-1) <= x < 10^n\<close>, for a positive \<open>x\<close>.\<close>

definition exponent_of :: "real \<Rightarrow> int" where
  "exponent_of x =
     (if 1 \<le> x then int (length (digits_of \<lfloor>x\<rfloor>))
      else 1 - int (length (digits_of (\<lceil>1 / x\<rceil> - 1))))"

definition significand :: "real \<Rightarrow> int \<Rightarrow> int" where
  "significand x n = \<lfloor>x * 10 powi (17 - n) + 1 / 2\<rfloor>"

function strip_zeros :: "int \<Rightarrow> int" where
  "strip_zeros s = (if s \<le> 0 \<or> s mod 10 \<noteq> 0 then s else strip_zeros (s div 10))"
  by pat_completeness auto

termination strip_zeros
  by (relation "measure nat") auto

declare strip_zeros.simps [simp del]

definition decimal_string :: "string \<Rightarrow> int \<Rightarrow> string" where
  "decimal_string ds n =
     (let k = int (length ds) in
      if k \<le> n \<and> n \<le> 21 then ds @ replicate (nat (n - k)) (CHR ''0'')
      else if 0 < n \<and> n \<le> 21 then take (nat n) ds @ ''.'' @ drop (nat n) ds
      else if - 6 < n \<and> n \<le> 0 then ''0.'' @ replicate (nat (- n)) (CHR ''0'') @ ds
      else (let e = n - 1;
                es = (if e < 0 then ''-'' else ''+'') @ digits_of \<bar>e\<bar>
            in if k = 1 then ds @ ''e'' @ es
               else take 1 ds @ ''.'' @ drop 1 ds @ ''e'' @ es))"

definition positive_string :: "real \<Rightarrow> string" where
  "positive_string x =
     (let n = exponent_of x;
          s = significand x n
      in decimal_string (digits_of (strip_zeros s)) (if s = 10 ^ 17 then n + 1 else n))"

fun num_to_string :: "jsnum \<Rightarrow> string" where
  "num_to_string NaN = ''NaN''"
| "num_to_string PInf = ''Infinity''"
| "num_to_string NInf = ''-Infinity''"
| "num_to_string (Fin x) =
     (if x = 0 then ''0'' else if x < 0 then ''-'' @ positive_string (- x) else positive_string x)"

subsection \<open>The number of a string\<close>

text \<open>
  \<open>numeric_string s\<close>: \<open>Number(s)\<close> is not NaN. After white space is trimmed, \<open>s\<close> is
  empty, a binary, octal or hexadecimal integer with its prefix, or a decimal literal with
  an optional sign: \<open>Infinity\<close>, or digits with an optional point and exponent.
\<close>

definition is_space :: "char \<Rightarrow> bool" where
  "is_space c = (c \<in> set [CHR 0x09, CHR 0x0A, CHR 0x0B, CHR 0x0C, CHR 0x0D, CHR 0x20, CHR 0xA0])"

definition trim :: "string \<Rightarrow> string" where
  "trim s = rev (dropWhile is_space (rev (dropWhile is_space s)))"

definition is_digit :: "char \<Rightarrow> bool" where
  "is_digit c = (c \<in> set digit_chars)"

definition digits_in :: "string \<Rightarrow> string \<Rightarrow> bool" where
  "digits_in alphabet s = (s \<noteq> [] \<and> list_all (\<lambda>c. c \<in> set alphabet) s)"

definition radix_literal :: "string \<Rightarrow> bool" where
  "radix_literal s = (case s of
       z # x # ds \<Rightarrow>
         z = CHR ''0''
         \<and> ((x \<in> set ''xX'' \<and> digits_in ''0123456789abcdefABCDEF'' ds)
            \<or> (x \<in> set ''oO'' \<and> digits_in ''01234567'' ds)
            \<or> (x \<in> set ''bB'' \<and> digits_in ''01'' ds))
     | _ \<Rightarrow> False)"

text \<open>What may follow the digits: nothing, or an exponent.\<close>

definition exponent_part :: "string \<Rightarrow> bool" where
  "exponent_part s = (case s of
       [] \<Rightarrow> True
     | e # t \<Rightarrow> e \<in> set ''eE''
         \<and> (case t of
               [] \<Rightarrow> False
             | c # u \<Rightarrow> if c \<in> set ''+-'' then digits_in digit_chars u else digits_in digit_chars t))"

definition unsigned_decimal :: "string \<Rightarrow> bool" where
  "unsigned_decimal s =
     (s = ''Infinity''
      \<or> (let whole = takeWhile is_digit s; rest = dropWhile is_digit s
         in case rest of
              [] \<Rightarrow> whole \<noteq> []
            | c # t \<Rightarrow>
                if c = CHR ''.''
                then (whole \<noteq> [] \<or> takeWhile is_digit t \<noteq> []) \<and> exponent_part (dropWhile is_digit t)
                else whole \<noteq> [] \<and> exponent_part rest))"

definition numeric_string :: "string \<Rightarrow> bool" where
  "numeric_string s =
     (let t = trim s
      in t = [] \<or> radix_literal t
         \<or> unsigned_decimal (case t of [] \<Rightarrow> [] | c # u \<Rightarrow> if c \<in> set ''+-'' then u else t))"

subsection \<open>Conversions and addition\<close>

text \<open>\<open>String(v)\<close>, also the property key that \<open>obj[v]\<close> uses, and truthiness.\<close>

fun to_string :: "prim \<Rightarrow> string" where
  "to_string Undefined = ''undefined''"
| "to_string Null = ''null''"
| "to_string (Bool b) = (if b then ''true'' else ''false'')"
| "to_string (Number x) = num_to_string x"
| "to_string (Str s) = s"

fun value_truthy :: "prim \<Rightarrow> bool" where
  "value_truthy Undefined = False"
| "value_truthy Null = False"
| "value_truthy (Bool b) = b"
| "value_truthy (Number x) = (x \<noteq> NaN \<and> x \<noteq> Fin 0)"
| "value_truthy (Str s) = (s \<noteq> [])"

text \<open>The number that arithmetic reads from a value that is not a string.\<close>

fun numeric_of :: "prim \<Rightarrow> jsnum option" where
  "numeric_of Undefined = Some NaN"
| "numeric_of Null = Some (Fin 0)"
| "numeric_of (Bool b) = Some (Fin (if b then 1 else 0))"
| "numeric_of (Number x) = Some x"
| "numeric_of (Str s) = None"

text \<open>\<open>a + b\<close>: the sum of two numbers, or the concatenation when an operand is a string.\<close>

definition plus_value :: "prim \<Rightarrow> prim \<Rightarrow> prim" where
  "plus_value a b = (case (numeric_of a, numeric_of b) of
       (Some x, Some y) \<Rightarrow> Number (js_add x y)
     | _ \<Rightarrow> Str (to_string a @ to_string b))"

text \<open>\<open>String(v || '')\<close>.\<close>

definition string_or_empty :: "prim \<Rightarrow> string" where
  "string_or_empty v = (if value_truthy v then to_string v else [])"

text \<open>The global \<open>isNaN(v)\<close>, and \<open>isNaN(v) ? 0 : +v.toFixed(2)\<close>: only a number has \<open>toFixed\<close>.\<close>

fun isNaN_value :: "prim \<Rightarrow> bool" where
  "isNaN_value Undefined = True"
| "isNaN_value Null = False"
| "isNaN_value (Bool b) = False"
| "isNaN_value (Number x) = (x = NaN)"
| "isNaN_value (Str s) = (\<not> numeric_string s)"

definition fixed2 :: "prim \<Rightarrow> error + jsnum" where
  "fixed2 v = (if isNaN_value v then Inr (Fin 0)
               else case v of Number x \<Rightarrow> Inr (toFixed2 x) | _ \<Rightarrow> Inl TypeError)"

section \<open>Plain objects used as dictionaries\<close>

text \<open>
  \<open>sellerIndex\<close>, \<open>productIndex\<close> and \<open>products_sold\<close> are plain objects. An object
  is the list of its own properties in enumeration order. Reading \<open>obj[key]\<close> finds an
  own property first and then a property of \<open>Object.prototype\<close>. The properties that
  \<open>Object.prototype\<close> has when a call starts are all truthy (builtin functions, and the
  prototype itself under \<open>__proto__\<close>): \<open>obj_get\<close> reads these. The properties that the
  program itself adds to \<open>Object.prototype\<close> are read where the program looks a key up.
\<close>

type_synonym 'a obj = "(string \<times> 'a) list"

datatype 'a lookup = Absent | Inherited | Own 'a

definition proto_keys :: "string list" where
  "proto_keys = [''constructor'', ''hasOwnProperty'', ''isPrototypeOf'',
     ''propertyIsEnumerable'', ''toLocaleString'', ''toString'', ''valueOf'',
     ''__proto__'', ''__defineGetter__'', ''__defineSetter__'',
     ''__lookupGetter__'', ''__lookupSetter__'']"

definition obj_get :: "'a obj \<Rightarrow> string \<Rightarrow> 'a lookup" where
  "obj_get obj k = (case map_of obj k of
       Some v \<Rightarrow> Own v
     | None \<Rightarrow> if k \<in> set proto_keys then Inherited else Absent)"

text \<open>
  Own properties are enumerated with the array indices first, in ascending numeric
  order, and then the other keys in the order of their creation. An array index is the
  canonical decimal string of an integer below \<open>2^32 - 1\<close>.
\<close>

definition digit_val :: "char \<Rightarrow> int" where
  "digit_val c = of_char c - 48"

definition int_of_digits :: "string \<Rightarrow> int" where
  "int_of_digits s = foldl (\<lambda>n c. 10 * n + digit_val c) 0 s"

definition is_array_index :: "string \<Rightarrow> bool" where
  "is_array_index s = (s \<noteq> [] \<and> list_all (\<lambda>c. c \<in> set digit_chars) s
      \<and> (s = ''0'' \<or> hd s \<noteq> CHR ''0'') \<and> int_of_digits s < 4294967295)"

text \<open>Where a new key goes: before the first own key that must follow it.\<close>

fun insert_key :: "string \<Rightarrow> 'a \<Rightarrow> 'a obj \<Rightarrow> 'a obj" where
  "insert_key k v [] = [(k, v)]"
| "insert_key k v ((k', v') # rest) =
     (if is_array_index k \<and> (\<not> is_array_index k' \<or> int_of_digits k < int_of_digits k')
      then (k, v) # (k', v') # rest
      else (k', v') # insert_key k v rest)"

text \<open>Creating or overwriting an own data property; an existing key keeps its place.\<close>

definition obj_define :: "'a obj \<Rightarrow> string \<Rightarrow> 'a \<Rightarrow> 'a obj" where
  "obj_define obj k v =
     (if k \<in> fst ` set obj then map (\<lambda>(k', v'). if k' = k then (k', v) else (k', v')) obj
      else insert_key k v obj)"

text \<open>\<open>Object.fromEntries\<close>: the entries define own properties, a later one wins.\<close>

definition fromEntries :: "(string \<times> 'a) list \<Rightarrow> 'a obj" where
  "fromEntries es = foldl (\<lambda>obj (k, v). obj_define obj k v) [] es"

subsection \<open>The builtin objects\<close>

text \<open>
  Twelve builtin objects are reached through the names of \<open>proto_keys\<close>:
  \<open>Object.prototype\<close> itself under \<open>__proto__\<close>, the function \<open>Object\<close> under
  \<open>constructor\<close>, and ten functions of \<open>Object.prototype\<close>. When a call starts they have
  no property \<open>sales_count\<close>, \<open>revenue\<close> or \<open>profit\<close>. The program can add these three by
  \<open>+=\<close>, which reads undefined first: what it writes is NaN, or a text that begins with
  \<open>undefined\<close> or \<open>NaN\<close>. Such a text is truthy, does not read as a number, and stays
  such a text when anything is appended. A realm gives, for each of the twelve names, the
  properties added to that object. A function inherits from \<open>Object.prototype\<close>, and so does
  every plain object: a property added there is read under its name from all of them.
\<close>

datatype written = NaN_written | Text_written

type_synonym realm = "string \<Rightarrow> written obj"

definition pristine :: realm where
  "pristine = (\<lambda>b. [])"

definition added :: "realm \<Rightarrow> string \<Rightarrow> written option" where
  "added rl k = map_of (rl ''__proto__'') k"

definition text_added :: "realm \<Rightarrow> string \<Rightarrow> bool" where
  "text_added rl k = (added rl k = Some Text_written)"

definition builtin_read :: "realm \<Rightarrow> string \<Rightarrow> string \<Rightarrow> written option" where
  "builtin_read rl b p = (case map_of (rl b) p of Some w \<Rightarrow> Some w | None \<Rightarrow> added rl p)"

text \<open>\<open>x + v\<close> for what a builtin object reads as \<open>x\<close>: undefined, NaN or a text.\<close>

fun plus_written :: "written option \<Rightarrow> prim \<Rightarrow> written" where
  "plus_written (Some Text_written) v = Text_written"
| "plus_written x (Str s) = Text_written"
| "plus_written x v = NaN_written"

text \<open>\<open>builtin[p] += v\<close>.\<close>

definition builtin_add :: "realm \<Rightarrow> string \<Rightarrow> string \<Rightarrow> prim \<Rightarrow> realm" where
  "builtin_add rl b p v = rl(b := obj_define (rl b) p (plus_written (builtin_read rl b p) v))"

section \<open>The data model\<close>

text \<open>
  Field names follow the source; a prefix is added where two records share a name or the
  name is taken in HOL: \<open>s_id\<close> is \<open>seller.id\<close>, \<open>i_sku\<close> is \<open>item.sku\<close>, \<open>st_\<close> marks the
  fields of a \<open>sellerStats\<close> element and \<open>row_\<close> those of a result element.

  Identifiers, names and the total amount are primitive values, which the program
  converts itself (property keys, the template literal, \<open>String\<close>, \<open>+=\<close>, \<open>isNaN\<close>).
  Prices, quantities and discounts only enter arithmetic: such a field is the number
  that arithmetic reads from it, NaN when the property is absent. A string there is
  outside the model, and so is an object or an array where a primitive value is read.
\<close>

record seller =
  s_id :: prim
  first_name :: prim
  last_name :: prim

record product =
  sku :: prim
  purchase_price :: jsnum

record item =
  i_sku :: prim
  quantity :: jsnum
  discount :: jsnum
  sale_price :: jsnum

text \<open>
  An element of an array is \<open>None\<close> when it is null or undefined; any other element
  reads as an object. \<open>items\<close> is \<open>None\<close> when the property is not an array (also when
  it is absent).
\<close>

record purchase_record =
  seller_id :: prim
  total_amount :: prim
  items :: "item option list option"

text \<open>
  A property of \<open>data\<close> is an array or anything else (also absent); \<open>data\<close> itself is
  \<open>None\<close> when it is null, undefined or another falsy value.
\<close>

datatype 'a field = NotArray | IsArray "'a list"

record sales_data =
  sellers :: "seller option field"
  products :: "product option field"
  purchase_records :: "purchase_record option field"

text \<open>
  A value stored in \<open>products_sold\<close>: a number, or the text that \<open>+=\<close> produces when
  the left operand is a builtin object (its source text followed by the quantity) or a
  text added to \<open>Object.prototype\<close>. Such a text does not read as a number.
\<close>

datatype jsval = Num jsnum | Text

text \<open>
  \<open>revenue\<close> starts as the number 0 and becomes a string when a total amount is a
  string; \<open>profit\<close> is always a number, a difference being added to it.
\<close>

record seller_stat =
  st_id :: prim
  st_name :: string
  st_revenue :: prim
  st_profit :: jsnum
  st_sales_count :: nat
  products_sold :: "jsval obj"

record ranked_stat = seller_stat +
  st_bonus :: jsnum
  st_top_products :: "(string \<times> jsval) list"

record row =
  row_seller_id :: string
  row_name :: string
  row_revenue :: jsnum
  row_profit :: jsnum
  row_sales_count :: nat
  row_top_products :: "(string \<times> jsval) list"
  row_bonus :: jsnum

text \<open>
  The two strategies are pure functions that return numbers; a strategy that is absent
  (or falsy) is \<open>None\<close>, and \<open>options\<close> itself is \<open>None\<close> when it is null or undefined.
\<close>

record options =
  calculateRevenue :: "(item \<Rightarrow> product \<Rightarrow> jsnum) option"
  calculateBonus :: "(int \<Rightarrow> int \<Rightarrow> seller_stat \<Rightarrow> jsnum) option"

text \<open>The property keys under which the program looks identifiers up.\<close>

definition seller_key :: "seller \<Rightarrow> string" where
  "seller_key s = to_string (s_id s)"

definition stat_key :: "seller_stat \<Rightarrow> string" where
  "stat_key s = to_string (st_id s)"

definition product_key :: "product \<Rightarrow> string" where
  "product_key p = to_string (sku p)"

definition item_key :: "item \<Rightarrow> string" where
  "item_key it = to_string (i_sku it)"

definition record_key :: "purchase_record \<Rightarrow> string" where
  "record_key r = to_string (seller_id r)"

section \<open>The reference strategies\<close>

definition calculateSimpleRevenue :: "item \<Rightarrow> product \<Rightarrow> jsnum" where
  "calculateSimpleRevenue purchase product =
     (let discountCoefficient = js_sub (Fin 1) (js_div (discount purchase) (Fin 100))
      in js_mul (js_mul (sale_price purchase) (quantity purchase)) discountCoefficient)"

definition calculateBonusByProfit :: "int \<Rightarrow> int \<Rightarrow> seller_stat \<Rightarrow> jsnum" where
  "calculateBonusByProfit index total_sellers seller =
     (if index = 0 then js_mul (st_profit seller) (Fin (15 / 100))
      else if index = 1 \<or> index = 2 then js_mul (st_profit seller) (Fin (10 / 100))
      else if index = total_sellers - 1 then Fin 0
      else js_mul (st_profit seller) (Fin (5 / 100)))"

section \<open>Array.prototype.sort\<close>

text \<open>
  \<open>sort\<close> is stable and orders by the comparator: \<open>a\<close> comes after \<open>b\<close> when
  \<open>compare(a, b) > 0\<close>; a comparator result of NaN counts as 0. It is modelled by a stable
  insertion sort. For a consistent comparator every conforming engine returns the same
  array; for an inconsistent one (NaN next to distinct numbers) the order is left to the
  engine, and only the fact that the result is a permutation carries over.
\<close>

fun js_positive :: "jsnum \<Rightarrow> bool" where
  "js_positive PInf = True"
| "js_positive (Fin a) = (0 < a)"
| "js_positive v = False"

fun insert_by :: "('a \<Rightarrow> 'a \<Rightarrow> jsnum) \<Rightarrow> 'a \<Rightarrow> 'a list \<Rightarrow> 'a list" where
  "insert_by cmp x [] = [x]"
| "insert_by cmp x (y # ys) =
     (if js_positive (cmp x y) then y # insert_by cmp x ys else x # y # ys)"

definition array_sort :: "('a \<Rightarrow> 'a \<Rightarrow> jsnum) \<Rightarrow> 'a list \<Rightarrow> 'a list" where
  "array_sort cmp xs = foldr (insert_by cmp) xs []"

section \<open>analyzeSalesData\<close>

subsection \<open>Validation of the input\<close>

fun isArray :: "'a field \<Rightarrow> bool" where
  "isArray NotArray = False"
| "isArray (IsArray xs) = True"

fun elements :: "'a field \<Rightarrow> 'a list" where
  "elements NotArray = []"
| "elements (IsArray xs) = xs"

definition validate ::
  "sales_data option \<Rightarrow>
     (seller option list \<times> product option list \<times> purchase_record option list) option" where
  "validate data = (case data of
       None \<Rightarrow> None
     | Some d \<Rightarrow>
         if \<not> isArray (sellers d)
            \<or> \<not> isArray (products d)
            \<or> \<not> isArray (purchase_records d)
            \<or> length (elements (sellers d)) = 0
            \<or> length (elements (products d)) = 0
            \<or> length (elements (purchase_records d)) = 0
         then None
         else Some (elements (sellers d), elements (products d), elements (purchase_records d)))"

subsection \<open>Aggregation\<close>

text \<open>Lines 60 to 67; the template literal writes each name as \<open>String\<close> does.\<close>

definition init_stat :: "seller \<Rightarrow> seller_stat" where
  "init_stat seller = \<lparr> st_id = s_id seller,
       st_name = to_string (first_name seller) @ '' '' @ to_string (last_name seller),
       st_revenue = Number (Fin 0), st_profit = Fin 0, st_sales_count = 0, products_sold = [] \<rparr>"

text \<open>
  \<open>sellerIndex\<close> holds references to the elements of \<open>sellerStats\<close>: a reference is the
  position of the element in the array as it is before the sort. The key of an entry is
  the string of the identifier.
\<close>

definition make_sellerIndex :: "seller_stat list \<Rightarrow> nat obj" where
  "make_sellerIndex sellerStats =
     fromEntries (map (\<lambda>(i, seller). (stat_key seller, i)) (enumerate 0 sellerStats))"

definition make_productIndex :: "product list \<Rightarrow> product obj" where
  "make_productIndex ps = fromEntries (map (\<lambda>product. (product_key product, product)) ps)"

text \<open>Truthiness of what \<open>seller.products_sold[item.sku]\<close> reads.\<close>

fun truthy :: "jsval lookup \<Rightarrow> bool" where
  "truthy Absent = False"
| "truthy Inherited = True"
| "truthy (Own (Num n)) = num_truthy n"
| "truthy (Own Text) = True"

text \<open>
  \<open>x + quantity\<close> for what was read: numbers add, a text or a builtin object on the left
  makes the sum a text, \<open>undefined\<close> makes it NaN.
\<close>

fun js_plus :: "jsval lookup \<Rightarrow> jsnum \<Rightarrow> jsval" where
  "js_plus Absent q = Num NaN"
| "js_plus Inherited q = Text"
| "js_plus (Own (Num n)) q = Num (js_add n q)"
| "js_plus (Own Text) q = Text"

text \<open>
  The assignment \<open>obj[key] = v\<close> of a number or a text. The key \<open>__proto__\<close> that is not
  an own property reaches the setter of \<open>Object.prototype\<close>, which ignores such values.
\<close>

definition obj_assign :: "jsval obj \<Rightarrow> string \<Rightarrow> jsval \<Rightarrow> jsval obj" where
  "obj_assign obj k v =
     (if k = ''__proto__'' \<and> k \<notin> fst ` set obj then obj else obj_define obj k v)"

text \<open>
  What \<open>seller.products_sold[key]\<close> reads: an own property, a builtin object, or a value
  added to \<open>Object.prototype\<close> under that name, which is read like an own one.
\<close>

definition read_counter :: "realm \<Rightarrow> jsval obj \<Rightarrow> string \<Rightarrow> jsval lookup" where
  "read_counter rl sold k = (case obj_get sold k of
       Absent \<Rightarrow> (case added rl k of
                     None \<Rightarrow> Absent
                   | Some NaN_written \<Rightarrow> Own (Num NaN)
                   | Some Text_written \<Rightarrow> Own Text)
     | found \<Rightarrow> found)"

text \<open>Lines 93 to 96: the per-SKU counter of one seller.\<close>

definition count_sold :: "realm \<Rightarrow> jsval obj \<Rightarrow> string \<Rightarrow> jsnum \<Rightarrow> jsval obj" where
  "count_sold rl sold k q =
     (let sold1 = (if \<not> truthy (read_counter rl sold k) then obj_assign sold k (Num (Fin 0)) else sold)
      in obj_assign sold1 k (js_plus (read_counter rl sold1 k) q))"

text \<open>
  The body of the inner \<open>forEach\<close>, for a seller that is an element of \<open>sellerStats\<close>.
  When \<open>productIndex[item.sku]\<close> is a builtin object, or a text added to
  \<open>Object.prototype\<close>, its \<open>purchase_price\<close> is undefined, the cost is NaN, and so is the
  profit whatever number the revenue strategy returns.
\<close>

definition apply_item ::
  "(item \<Rightarrow> product \<Rightarrow> jsnum) \<Rightarrow> product obj \<Rightarrow> realm \<Rightarrow> seller_stat \<Rightarrow> item \<Rightarrow> seller_stat" where
  "apply_item calcRevenue productIndex rl seller item =
     (let counted = count_sold rl (products_sold seller) (item_key item) (quantity item);
          unpriced = seller\<lparr> st_profit := js_add (st_profit seller) NaN, products_sold := counted \<rparr>
      in case obj_get productIndex (item_key item) of
           Absent \<Rightarrow> if text_added rl (item_key item) then unpriced else seller
         | Own product \<Rightarrow>
             (let cost = js_mul (purchase_price product) (quantity item);
                  revenue = calcRevenue item product;
                  profit = js_sub revenue cost
              in seller\<lparr> st_profit := js_add (st_profit seller) profit, products_sold := counted \<rparr>)
         | Inherited \<Rightarrow> unpriced)"

text \<open>The inner \<open>forEach\<close>: reading \<open>item.sku\<close> of a null element throws.\<close>

fun apply_items ::
  "(item \<Rightarrow> product \<Rightarrow> jsnum) \<Rightarrow> product obj \<Rightarrow> realm \<Rightarrow> seller_stat \<Rightarrow> item option list
     \<Rightarrow> error + seller_stat" where
  "apply_items calcRevenue productIndex rl seller [] = Inr seller"
| "apply_items calcRevenue productIndex rl seller (None # rest) = Inl TypeError"
| "apply_items calcRevenue productIndex rl seller (Some item # rest) =
     apply_items calcRevenue productIndex rl (apply_item calcRevenue productIndex rl seller item) rest"

text \<open>
  When \<open>sellerIndex[record.seller_id]\<close> is not an element of \<open>sellerStats\<close> but is truthy,
  it is a builtin object or a text added to \<open>Object.prototype\<close>, and it has no
  \<open>products_sold\<close>: the first line item that is null, or whose product is found, throws
  (line 85 or line 93), and so does \<open>record.items.forEach\<close> when \<open>items\<close> is not an array.
\<close>

definition item_throws :: "product obj \<Rightarrow> realm \<Rightarrow> item option \<Rightarrow> bool" where
  "item_throws productIndex rl it = (case it of
       None \<Rightarrow> True
     | Some item \<Rightarrow> obj_get productIndex (item_key item) \<noteq> Absent \<or> text_added rl (item_key item))"

definition without_counters ::
  "product obj \<Rightarrow> realm \<Rightarrow> item option list option \<Rightarrow> 'a \<Rightarrow> error + 'a" where
  "without_counters productIndex rl its sellerStats = (case its of
       None \<Rightarrow> Inl TypeError
     | Some xs \<Rightarrow> if list_ex (item_throws productIndex rl) xs then Inl TypeError else Inr sellerStats)"

text \<open>Lines 81 and 82 for a seller that is the builtin object \<open>b\<close>.\<close>

definition builtin_sale :: "realm \<Rightarrow> string \<Rightarrow> prim \<Rightarrow> realm" where
  "builtin_sale rl b amount =
     builtin_add (builtin_add rl b ''sales_count'' (Number (Fin 1))) b ''revenue'' amount"

text \<open>
  The body of the outer \<open>forEach\<close>. The program is a classic script: a write to a
  property of a text is ignored.
\<close>

definition apply_record ::
  "(item \<Rightarrow> product \<Rightarrow> jsnum) \<Rightarrow> product obj \<Rightarrow> nat obj \<Rightarrow> realm \<Rightarrow> seller_stat list
     \<Rightarrow> purchase_record \<Rightarrow> error + seller_stat list" where
  "apply_record calcRevenue productIndex sellerIndex rl sellerStats record =
     (case obj_get sellerIndex (record_key record) of
        Absent \<Rightarrow>
          if text_added rl (record_key record)
          then without_counters productIndex rl (items record) sellerStats
          else Inr sellerStats
      | Inherited \<Rightarrow>
          without_counters productIndex
            (builtin_sale rl (record_key record) (total_amount record)) (items record) sellerStats
      | Own i \<Rightarrow>
          (let seller = (sellerStats ! i)\<lparr> st_sales_count := st_sales_count (sellerStats ! i) + 1,
                 st_revenue := plus_value (st_revenue (sellerStats ! i)) (total_amount record) \<rparr>
           in case items record of
                None \<Rightarrow> Inl TypeError
              | Some its \<Rightarrow>
                  (case apply_items calcRevenue productIndex rl seller its of
                     Inl e \<Rightarrow> Inl e
                   | Inr seller' \<Rightarrow> Inr (sellerStats[i := seller']))))"

text \<open>The realm after a record that has not thrown.\<close>

definition realm_after :: "nat obj \<Rightarrow> realm \<Rightarrow> purchase_record \<Rightarrow> realm" where
  "realm_after sellerIndex rl record =
     (if obj_get sellerIndex (record_key record) = Inherited
      then builtin_sale rl (record_key record) (total_amount record)
      else rl)"

text \<open>The outer \<open>forEach\<close>: reading \<open>record.seller_id\<close> of a null element throws.\<close>

fun process_records ::
  "(item \<Rightarrow> product \<Rightarrow> jsnum) \<Rightarrow> product obj \<Rightarrow> nat obj \<Rightarrow> realm \<Rightarrow> seller_stat list
     \<Rightarrow> purchase_record option list \<Rightarrow> error + seller_stat list" where
  "process_records calcRevenue productIndex sellerIndex rl sellerStats [] = Inr sellerStats"
| "process_records calcRevenue productIndex sellerIndex rl sellerStats (None # rest) = Inl TypeError"
| "process_records calcRevenue productIndex sellerIndex rl sellerStats (Some record # rest) =
     (case apply_record calcRevenue productIndex sellerIndex rl sellerStats record of
        Inl e \<Rightarrow> Inl e
      | Inr sellerStats' \<Rightarrow>
          process_records calcRevenue productIndex sellerIndex
            (realm_after sellerIndex rl record) sellerStats' rest)"

text \<open>
  Lines 60 to 98 for sellers and products that are objects: the statistics of every
  seller, before the sort. The call starts in a realm that nothing has written to.
\<close>

definition aggregate ::
  "(item \<Rightarrow> product \<Rightarrow> jsnum) \<Rightarrow> seller list \<Rightarrow> product list \<Rightarrow> purchase_record option list
     \<Rightarrow> error + seller_stat list" where
  "aggregate calcRevenue ss ps rs =
     (let sellerStats = map init_stat ss
      in process_records calcRevenue (make_productIndex ps) (make_sellerIndex sellerStats)
           pristine sellerStats rs)"

subsection \<open>Ranking, bonuses and top products\<close>

definition by_profit :: "seller_stat \<Rightarrow> seller_stat \<Rightarrow> jsnum" where
  "by_profit a b = js_sub (st_profit b) (st_profit a)"

fun to_number :: "jsval \<Rightarrow> jsnum" where
  "to_number (Num n) = n"
| "to_number Text = NaN"

definition by_quantity :: "string \<times> jsval \<Rightarrow> string \<times> jsval \<Rightarrow> jsnum" where
  "by_quantity a b = js_sub (to_number (snd b)) (to_number (snd a))"

definition top_products_of :: "jsval obj \<Rightarrow> (string \<times> jsval) list" where
  "top_products_of sold = take 10 (array_sort by_quantity sold)"

definition assign_bonus ::
  "(int \<Rightarrow> int \<Rightarrow> seller_stat \<Rightarrow> jsnum) \<Rightarrow> seller_stat list \<Rightarrow> ranked_stat list" where
  "assign_bonus calcBonus sellerStats =
     map (\<lambda>(index, seller).
            \<lparr> st_id = st_id seller, st_name = st_name seller,
              st_revenue = st_revenue seller, st_profit = st_profit seller,
              st_sales_count = st_sales_count seller, products_sold = products_sold seller,
              st_bonus = calcBonus (int index) (int (length sellerStats)) seller,
              st_top_products = top_products_of (products_sold seller) \<rparr>)
         (enumerate 0 sellerStats)"

subsection \<open>The result\<close>

text \<open>
  Lines 114 to 126 for one element. \<open>revenue.toFixed\<close> throws when the revenue is a
  string that reads as a number; one that does not is taken for NaN by \<open>isNaN\<close>.
\<close>

definition format_row :: "ranked_stat \<Rightarrow> error + row" where
  "format_row seller =
     (case fixed2 (st_revenue seller) of
        Inl e \<Rightarrow> Inl e
      | Inr revenue \<Rightarrow>
          (let profit = (if isNaN (st_profit seller) then Fin 0 else toFixed2 (st_profit seller));
               bonus = (if isNaN (st_bonus seller) then Fin 0 else toFixed2 (st_bonus seller))
           in Inr \<lparr> row_seller_id = string_or_empty (st_id seller),
                    row_name = string_or_empty (Str (st_name seller)),
                    row_revenue = revenue, row_profit = profit,
                    row_sales_count = st_sales_count seller,
                    row_top_products = st_top_products seller, row_bonus = bonus \<rparr>))"

text \<open>The results of a \<open>map\<close> whose callback can throw: the first error ends it.\<close>

fun collect :: "(error + 'a) list \<Rightarrow> error + 'a list" where
  "collect [] = Inr []"
| "collect (Inl e # rest) = Inl e"
| "collect (Inr x # rest) = (case collect rest of Inl e \<Rightarrow> Inl e | Inr xs \<Rightarrow> Inr (x # xs))"

text \<open>
  Lines 42 to 110: the array \<open>sellerStats\<close> as it is when the result is built. Reading
  \<open>seller.id\<close> (line 61) or \<open>product.sku\<close> (line 74) of a null element throws.
\<close>

definition ranked_sellerStats ::
  "sales_data option \<Rightarrow> options option \<Rightarrow> error + ranked_stat list" where
  "ranked_sellerStats data opts =
     (case validate data of
        None \<Rightarrow> Inl InvalidInputError
      | Some (ss, ps, rs) \<Rightarrow>
          (case opts of
             None \<Rightarrow> Inl TypeError
           | Some opt \<Rightarrow>
               (case (calculateRevenue opt, calculateBonus opt) of
                  (Some calcRevenue, Some calcBonus) \<Rightarrow>
                    (case (those ss, those ps) of
                       (Some xs, Some ys) \<Rightarrow>
                         (case aggregate calcRevenue xs ys rs of
                            Inl e \<Rightarrow> Inl e
                          | Inr sellerStats \<Rightarrow>
                              Inr (assign_bonus calcBonus (array_sort by_profit sellerStats)))
                     | _ \<Rightarrow> Inl TypeError)
                | _ \<Rightarrow> Inl MissingStrategyError)))"

definition analyzeSalesData :: "sales_data option \<Rightarrow> options option \<Rightarrow> error + row list" where
  "analyzeSalesData data opts =
     (case ranked_sellerStats data opts of
        Inl e \<Rightarrow> Inl e
      | Inr sellerStats \<Rightarrow> collect (map format_row sellerStats))"

text \<open>\<open>a >= b\<close> on numbers: false when an operand is NaN.\<close>

fun js_ge :: "jsnum \<Rightarrow> jsnum \<Rightarrow> bool" where
  "js_ge NaN y = False"
| "js_ge x NaN = False"
| "js_ge PInf y = True"
| "js_ge x NInf = True"
| "js_ge (Fin a) (Fin b) = (b \<le> a)"
| "js_ge x y = False"

section \<open>analyzeSalesData on a store\<close>

text \<open>
  The definitions above pass the input as values, which cannot be written to. To state
  what the function writes, the same program is given here on a store: a list of cells,
  an address being a position in it. The arguments are references into the store, every
  object literal and every \<open>map\<close> appends new cells, and every assignment of the source
  overwrites the cell its left-hand side refers to. The builtin objects are not cells:
  what the program adds to them is kept in the realm. The function returns its result,
  or the error, and the realm and the store as they are then.
\<close>

type_synonym addr = nat

text \<open>
  \<open>RecordObj\<close> carries \<open>seller_id\<close>, \<open>total_amount\<close> and the reference \<open>items\<close>; \<open>DataObj\<close>
  carries the references \<open>sellers\<close>, \<open>products\<close> and \<open>purchase_records\<close>; a reference of
  these is \<open>None\<close> when the property is absent. \<open>StatObj\<close> is an element of \<open>sellerStats\<close>
  together with its object \<open>products_sold\<close>, and with \<open>bonus\<close> and \<open>top_products\<close> once
  they are assigned.
\<close>

datatype cell =
    SellerObj seller
  | ProductObj product
  | ItemObj item
  | RecordObj prim prim "addr option"
  | ArrayObj "addr list"
  | DataObj "addr option" "addr option" "addr option"
  | OptionsObj options
  | StatObj seller_stat "(jsnum \<times> (string \<times> jsval) list) option"
  | RowObj row

type_synonym store = "cell list"

text \<open>Reading: the cell at an address, and the typed reads of the program.\<close>

definition cell_at :: "store \<Rightarrow> addr \<Rightarrow> cell option" where
  "cell_at h a = (if a < length h then Some (h ! a) else None)"

definition array_at :: "store \<Rightarrow> addr option \<Rightarrow> addr list option" where
  "array_at h r = (case r of
       None \<Rightarrow> None
     | Some a \<Rightarrow> (case cell_at h a of Some (ArrayObj xs) \<Rightarrow> Some xs | _ \<Rightarrow> None))"

definition seller_at :: "store \<Rightarrow> addr \<Rightarrow> seller option" where
  "seller_at h a = (case cell_at h a of Some (SellerObj s) \<Rightarrow> Some s | _ \<Rightarrow> None)"

definition product_at :: "store \<Rightarrow> addr \<Rightarrow> product option" where
  "product_at h a = (case cell_at h a of Some (ProductObj p) \<Rightarrow> Some p | _ \<Rightarrow> None)"

definition stat_at :: "store \<Rightarrow> addr \<Rightarrow> seller_stat option" where
  "stat_at h a = (case cell_at h a of Some (StatObj s b) \<Rightarrow> Some s | _ \<Rightarrow> None)"

text \<open>The writes \<open>seller.x = ...\<close>: they change the object that \<open>seller\<close> refers to.\<close>

definition update_stat :: "store \<Rightarrow> addr \<Rightarrow> (seller_stat \<Rightarrow> seller_stat) \<Rightarrow> store" where
  "update_stat h a f = (case cell_at h a of
       Some (StatObj s b) \<Rightarrow> h[a := StatObj (f s) b]
     | _ \<Rightarrow> h)"

definition validate_store ::
  "store \<Rightarrow> addr option \<Rightarrow> (addr list \<times> addr list \<times> addr list) option" where
  "validate_store h data = (case data of
       None \<Rightarrow> None
     | Some d \<Rightarrow> (case cell_at h d of
          Some (DataObj s p r) \<Rightarrow>
            (case (array_at h s, array_at h p, array_at h r) of
               (Some ss, Some ps, Some rs) \<Rightarrow>
                 if length ss = 0 \<or> length ps = 0 \<or> length rs = 0 then None
                 else Some (ss, ps, rs)
             | _ \<Rightarrow> None)
        | _ \<Rightarrow> None))"

text \<open>
  Lines 78 to 98. The record, its items and the product are read from the store when
  the loop reaches them. A cell of another kind where a record or an item is expected
  stands for null or undefined there, and reading a property of it throws; where a
  product is expected it is skipped as falsy.

  First the line items for a seller that is an element of \<open>sellerStats\<close>, \<open>seller\<close> being
  the reference found in \<open>sellerIndex\<close>.
\<close>

definition apply_item_store ::
  "(item \<Rightarrow> product \<Rightarrow> jsnum) \<Rightarrow> addr obj \<Rightarrow> realm \<Rightarrow> addr \<Rightarrow> store \<Rightarrow> addr
     \<Rightarrow> (error + unit) \<times> store" where
  "apply_item_store calcRevenue productIndex rl seller h ia =
     (case cell_at h ia of
        Some (ItemObj item) \<Rightarrow>
          (let unpriced = update_stat h seller (\<lambda>s.
                 s\<lparr> st_profit := js_add (st_profit s) NaN,
                    products_sold := count_sold rl (products_sold s) (item_key item) (quantity item) \<rparr>)
           in case obj_get productIndex (item_key item) of
                Absent \<Rightarrow> (Inr (), if text_added rl (item_key item) then unpriced else h)
              | Own pa \<Rightarrow>
                  (case product_at h pa of
                     Some product \<Rightarrow>
                       (let cost = js_mul (purchase_price product) (quantity item);
                            revenue = calcRevenue item product;
                            profit = js_sub revenue cost
                        in (Inr (), update_stat h seller (\<lambda>s.
                             s\<lparr> st_profit := js_add (st_profit s) profit,
                                products_sold :=
                                  count_sold rl (products_sold s) (item_key item) (quantity item) \<rparr>)))
                   | None \<Rightarrow> (Inr (), h))
              | Inherited \<Rightarrow> (Inr (), unpriced))
      | _ \<Rightarrow> (Inl TypeError, h))"

fun apply_items_store ::
  "(item \<Rightarrow> product \<Rightarrow> jsnum) \<Rightarrow> addr obj \<Rightarrow> realm \<Rightarrow> addr \<Rightarrow> store \<Rightarrow> addr list
     \<Rightarrow> (error + unit) \<times> store" where
  "apply_items_store calcRevenue productIndex rl seller h [] = (Inr (), h)"
| "apply_items_store calcRevenue productIndex rl seller h (ia # rest) =
     (case apply_item_store calcRevenue productIndex rl seller h ia of
        (Inl e, h') \<Rightarrow> (Inl e, h')
      | (Inr u, h') \<Rightarrow> apply_items_store calcRevenue productIndex rl seller h' rest)"

text \<open>
  The line items for a seller that is the builtin object \<open>b\<close>: the profit of the first
  item whose product is found is added to \<open>b.profit\<close> (line 90), and reading
  \<open>b.products_sold[item.sku]\<close> throws (line 93).
\<close>

fun builtin_items_store ::
  "(item \<Rightarrow> product \<Rightarrow> jsnum) \<Rightarrow> addr obj \<Rightarrow> string \<Rightarrow> realm \<Rightarrow> store \<Rightarrow> addr list
     \<Rightarrow> (error + unit) \<times> realm" where
  "builtin_items_store calcRevenue productIndex b rl h [] = (Inr (), rl)"
| "builtin_items_store calcRevenue productIndex b rl h (ia # rest) =
     (case cell_at h ia of
        Some (ItemObj item) \<Rightarrow>
          (case obj_get productIndex (item_key item) of
             Absent \<Rightarrow>
               if text_added rl (item_key item)
               then (Inl TypeError, builtin_add rl b ''profit'' (Number NaN))
               else builtin_items_store calcRevenue productIndex b rl h rest
           | Own pa \<Rightarrow>
               (case product_at h pa of
                  Some product \<Rightarrow>
                    (let cost = js_mul (purchase_price product) (quantity item);
                         revenue = calcRevenue item product;
                         profit = js_sub revenue cost
                     in (Inl TypeError, builtin_add rl b ''profit'' (Number profit)))
                | None \<Rightarrow> builtin_items_store calcRevenue productIndex b rl h rest)
           | Inherited \<Rightarrow> (Inl TypeError, builtin_add rl b ''profit'' (Number NaN)))
      | _ \<Rightarrow> (Inl TypeError, rl))"

text \<open>
  The line items for a seller that is a text added to \<open>Object.prototype\<close>: the writes to
  its properties are ignored, and the first item that is null or whose product is found
  throws.
\<close>

definition item_found :: "addr obj \<Rightarrow> realm \<Rightarrow> store \<Rightarrow> addr \<Rightarrow> bool" where
  "item_found productIndex rl h ia = (case cell_at h ia of
       Some (ItemObj item) \<Rightarrow>
         (case obj_get productIndex (item_key item) of
            Absent \<Rightarrow> text_added rl (item_key item)
          | Own pa \<Rightarrow> product_at h pa \<noteq> None
          | Inherited \<Rightarrow> True)
     | _ \<Rightarrow> True)"

definition apply_record_store ::
  "(item \<Rightarrow> product \<Rightarrow> jsnum) \<Rightarrow> addr obj \<Rightarrow> addr obj \<Rightarrow> realm \<Rightarrow> store \<Rightarrow> addr
     \<Rightarrow> (error + unit) \<times> realm \<times> store" where
  "apply_record_store calcRevenue productIndex sellerIndex rl h ra =
     (case cell_at h ra of
        Some (RecordObj sid amount its) \<Rightarrow>
          (case obj_get sellerIndex (to_string sid) of
             Absent \<Rightarrow>
               if text_added rl (to_string sid)
               then (case array_at h its of
                       None \<Rightarrow> (Inl TypeError, rl, h)
                     | Some ias \<Rightarrow>
                         if list_ex (item_found productIndex rl h) ias then (Inl TypeError, rl, h)
                         else (Inr (), rl, h))
               else (Inr (), rl, h)
           | Inherited \<Rightarrow>
               (let rl1 = builtin_sale rl (to_string sid) amount
                in case array_at h its of
                     None \<Rightarrow> (Inl TypeError, rl1, h)
                   | Some ias \<Rightarrow>
                       (case builtin_items_store calcRevenue productIndex (to_string sid) rl1 h ias of
                          (res, rl2) \<Rightarrow> (res, rl2, h)))
           | Own seller \<Rightarrow>
               (let h1 = update_stat h seller (\<lambda>s.
                      s\<lparr> st_sales_count := st_sales_count s + 1,
                         st_revenue := plus_value (st_revenue s) amount \<rparr>)
                in case array_at h1 its of
                     None \<Rightarrow> (Inl TypeError, rl, h1)
                   | Some ias \<Rightarrow>
                       (case apply_items_store calcRevenue productIndex rl seller h1 ias of
                          (res, h2) \<Rightarrow> (res, rl, h2))))
      | _ \<Rightarrow> (Inl TypeError, rl, h))"

fun process_records_store ::
  "(item \<Rightarrow> product \<Rightarrow> jsnum) \<Rightarrow> addr obj \<Rightarrow> addr obj \<Rightarrow> realm \<Rightarrow> store \<Rightarrow> addr list
     \<Rightarrow> (error + unit) \<times> realm \<times> store" where
  "process_records_store calcRevenue productIndex sellerIndex rl h [] = (Inr (), rl, h)"
| "process_records_store calcRevenue productIndex sellerIndex rl h (ra # rest) =
     (case apply_record_store calcRevenue productIndex sellerIndex rl h ra of
        (Inl e, rl', h') \<Rightarrow> (Inl e, rl', h')
      | (Inr u, rl', h') \<Rightarrow> process_records_store calcRevenue productIndex sellerIndex rl' h' rest)"

text \<open>Line 101: the sort rearranges the array \<open>sellerStats\<close> in place.\<close>

definition profit_at :: "store \<Rightarrow> addr \<Rightarrow> jsnum" where
  "profit_at h a = (case stat_at h a of Some s \<Rightarrow> st_profit s | None \<Rightarrow> NaN)"

definition sort_store :: "store \<Rightarrow> addr \<Rightarrow> store" where
  "sort_store h sa = (case cell_at h sa of
       Some (ArrayObj xs) \<Rightarrow>
         h[sa := ArrayObj (array_sort (\<lambda>a b. js_sub (profit_at h b) (profit_at h a)) xs)]
     | _ \<Rightarrow> h)"

text \<open>Lines 104 to 110: \<open>bonus\<close> and \<open>top_products\<close> are written to each element.\<close>

definition assign_bonus_at ::
  "(int \<Rightarrow> int \<Rightarrow> seller_stat \<Rightarrow> jsnum) \<Rightarrow> nat \<Rightarrow> store \<Rightarrow> nat \<times> addr \<Rightarrow> store" where
  "assign_bonus_at calcBonus n h = (\<lambda>(index, a).
     case cell_at h a of
       Some (StatObj s b) \<Rightarrow>
         h[a := StatObj s (Some (calcBonus (int index) (int n) s, top_products_of (products_sold s)))]
     | _ \<Rightarrow> h)"

definition assign_bonus_store ::
  "(int \<Rightarrow> int \<Rightarrow> seller_stat \<Rightarrow> jsnum) \<Rightarrow> store \<Rightarrow> addr list \<Rightarrow> store" where
  "assign_bonus_store calcBonus h xs = foldl (assign_bonus_at calcBonus (length xs)) h (enumerate 0 xs)"

text \<open>
  Lines 113 to 127: a new object per element. A missing \<open>bonus\<close> is undefined, which
  \<open>isNaN\<close> takes for NaN, and missing \<open>top_products\<close> give the empty array.
\<close>

definition row_of_cell :: "cell option \<Rightarrow> error + row" where
  "row_of_cell c = (case c of
       Some (StatObj s b) \<Rightarrow>
         format_row \<lparr> st_id = st_id s, st_name = st_name s, st_revenue = st_revenue s,
           st_profit = st_profit s, st_sales_count = st_sales_count s,
           products_sold = products_sold s,
           st_bonus = (case b of Some (bonus, tops) \<Rightarrow> bonus | None \<Rightarrow> NaN),
           st_top_products = (case b of Some (bonus, tops) \<Rightarrow> tops | None \<Rightarrow> []) \<rparr>
     | _ \<Rightarrow> Inl TypeError)"

text \<open>
  Lines 60 to 75: the elements of \<open>sellerStats\<close> and the array are new objects; the two
  indexes map identifiers to references.
\<close>

definition create_sellerStats :: "store \<Rightarrow> seller list \<Rightarrow> addr list \<times> addr \<times> store" where
  "create_sellerStats h xs =
     (let stats = [length h ..< length h + length xs];
          h1 = h @ map (\<lambda>seller. StatObj (init_stat seller) None) xs
      in (stats, length h1, h1 @ [ArrayObj stats]))"

definition sellerIndex_store :: "store \<Rightarrow> addr list \<Rightarrow> addr obj" where
  "sellerIndex_store h stats =
     fromEntries (map (\<lambda>a. (case stat_at h a of Some s \<Rightarrow> stat_key s | None \<Rightarrow> [], a)) stats)"

definition productIndex_store :: "product list \<Rightarrow> addr list \<Rightarrow> addr obj" where
  "productIndex_store xs ps = fromEntries (map (\<lambda>(product, a). (product_key product, a)) (zip xs ps))"

text \<open>The result: new objects and a new array; the address of the array is returned.\<close>

definition create_result :: "store \<Rightarrow> row list \<Rightarrow> (error + addr) \<times> store" where
  "create_result h rows =
     (let result = [length h ..< length h + length rows];
          h1 = h @ map RowObj rows
      in (Inr (length h1), h1 @ [ArrayObj result]))"

definition rank_and_format ::
  "(int \<Rightarrow> int \<Rightarrow> seller_stat \<Rightarrow> jsnum) \<Rightarrow> store \<Rightarrow> addr \<Rightarrow> (error + addr) \<times> store" where
  "rank_and_format calcBonus h sellerStats =
     (let h1 = sort_store h sellerStats;
          sorted = (case array_at h1 (Some sellerStats) of Some xs \<Rightarrow> xs | None \<Rightarrow> []);
          h2 = assign_bonus_store calcBonus h1 sorted
      in case collect (map (\<lambda>a. row_of_cell (cell_at h2 a)) sorted) of
           Inl e \<Rightarrow> (Inl e, h2)
         | Inr rows \<Rightarrow> create_result h2 rows)"

definition analyze_valid ::
  "(item \<Rightarrow> product \<Rightarrow> jsnum) \<Rightarrow> (int \<Rightarrow> int \<Rightarrow> seller_stat \<Rightarrow> jsnum) \<Rightarrow> realm \<Rightarrow> store
     \<Rightarrow> addr list \<Rightarrow> addr list \<Rightarrow> addr list \<Rightarrow> (error + addr) \<times> realm \<times> store" where
  "analyze_valid calcRevenue calcBonus rl h ss ps rs =
     (case those (map (seller_at h) ss) of
        None \<Rightarrow> (Inl TypeError, rl, h)
      | Some xs \<Rightarrow>
          (case create_sellerStats h xs of
             (stats, sellerStats, h1) \<Rightarrow>
               (case those (map (product_at h1) ps) of
                  None \<Rightarrow> (Inl TypeError, rl, h1)
                | Some ys \<Rightarrow>
                    (case process_records_store calcRevenue (productIndex_store ys ps)
                            (sellerIndex_store h1 stats) rl h1 rs of
                       (Inl e, rl2, h2) \<Rightarrow> (Inl e, rl2, h2)
                     | (Inr u, rl2, h2) \<Rightarrow>
                         (case rank_and_format calcBonus h2 sellerStats of
                            (res, h3) \<Rightarrow> (res, rl2, h3))))))"

definition options_at ::
  "store \<Rightarrow> addr \<Rightarrow> (item \<Rightarrow> product \<Rightarrow> jsnum) option \<times> (int \<Rightarrow> int \<Rightarrow> seller_stat \<Rightarrow> jsnum) option" where
  "options_at h a = (case cell_at h a of
       Some (OptionsObj opt) \<Rightarrow> (calculateRevenue opt, calculateBonus opt)
     | _ \<Rightarrow> (None, None))"

definition analyzeSalesData_store ::
  "realm \<Rightarrow> store \<Rightarrow> addr option \<Rightarrow> addr option \<Rightarrow> (error + addr) \<times> realm \<times> store" where
  "analyzeSalesData_store rl h data opts =
     (case validate_store h data of
        None \<Rightarrow> (Inl InvalidInputError, rl, h)
      | Some (ss, ps, rs) \<Rightarrow>
          (case opts of
             None \<Rightarrow> (Inl TypeError, rl, h)
           | Some oa \<Rightarrow>
               (case options_at h oa of
                  (Some calcRevenue, Some calcBonus) \<Rightarrow>
                    analyze_valid calcRevenue calcBonus rl h ss ps rs
                | _ \<Rightarrow> (Inl MissingStrategyError, rl, h))))"

section \<open>Notions used to state the properties\<close>

text \<open>
  \<open>two_decimals acc out\<close>: \<open>out\<close> is the finite number \<open>acc\<close> rounded to two decimal
  places, a multiple of 0.01 at most 0.005 away. \<open>normalised acc out\<close> is what the result
  holds for an accumulated value \<open>acc\<close>.
\<close>

fun js_finite :: "jsnum \<Rightarrow> bool" where
  "js_finite (Fin x) = True"
| "js_finite x = False"

definition two_decimals :: "jsnum \<Rightarrow> jsnum \<Rightarrow> bool" where
  "two_decimals acc out \<longleftrightarrow>
     (\<exists>x n. acc = Fin x \<and> out = Fin (real_of_int n / 100) \<and> \<bar>real_of_int n / 100 - x\<bar> \<le> 1 / 200)"

definition normalised :: "jsnum \<Rightarrow> jsnum \<Rightarrow> bool" where
  "normalised acc out \<longleftrightarrow>
     out \<noteq> NaN
     \<and> (acc = NaN \<longrightarrow> out = Fin 0)
     \<and> (\<forall>x. acc = Fin x \<and> \<bar>x\<bar> < 10 ^ 21 \<longrightarrow> two_decimals acc out)
     \<and> (\<forall>x. acc = Fin x \<and> 10 ^ 21 \<le> \<bar>x\<bar> \<longrightarrow> out = acc)
     \<and> (acc = PInf \<or> acc = NInf \<longrightarrow> out = acc)"

text \<open>
  What the output holds for an accumulated revenue \<open>acc\<close>, which can be a string: 0
  when \<open>isNaN\<close> takes it for NaN.
\<close>

definition normalised_value :: "prim \<Rightarrow> jsnum \<Rightarrow> bool" where
  "normalised_value acc out = (case acc of
       Number x \<Rightarrow> normalised x out
     | _ \<Rightarrow> isNaN_value acc \<and> out = Fin 0)"

text \<open>The elements of an array that are objects.\<close>

fun objects :: "'a option list \<Rightarrow> 'a list" where
  "objects [] = []"
| "objects (None # xs) = objects xs"
| "objects (Some x # xs) = x # objects xs"

text \<open>
  The line items of a record, none when \<open>items\<close> is not an array; \<open>itemized r\<close>: the
  \<open>items\<close> of the record are an array of objects.
\<close>

definition items_of :: "purchase_record \<Rightarrow> item list" where
  "items_of r = (case items r of None \<Rightarrow> [] | Some its \<Rightarrow> objects its)"

definition itemized :: "purchase_record \<Rightarrow> bool" where
  "itemized r = (case items r of None \<Rightarrow> False | Some its \<Rightarrow> list_all (\<lambda>it. it \<noteq> None) its)"




text \<open>
  The seller and the product that a property key matches: the last element of the input
  array whose identifier has this key, given as a position for sellers.
\<close>

definition seller_position :: "seller list \<Rightarrow> string \<Rightarrow> nat option" where
  "seller_position ss k = map_option fst (find (\<lambda>(i, s). seller_key s = k) (rev (enumerate 0 ss)))"

definition find_product :: "product list \<Rightarrow> string \<Rightarrow> product option" where
  "find_product ps k = find (\<lambda>p. product_key p = k) (rev ps)"

text \<open>
  The records of the seller at position \<open>i\<close>, in input order, and the line items of a
  list of records that match a product, in input order, each with its product.
\<close>

definition records_of :: "seller list \<Rightarrow> purchase_record list \<Rightarrow> nat \<Rightarrow> purchase_record list" where
  "records_of ss rs i = filter (\<lambda>r. seller_position ss (record_key r) = Some i) rs"

definition sold_in :: "product list \<Rightarrow> item list \<Rightarrow> (item \<times> product) list" where
  "sold_in ps its = List.map_filter (\<lambda>it. map_option (Pair it) (find_product ps (item_key it))) its"

definition sold_items :: "product list \<Rightarrow> purchase_record list \<Rightarrow> (item \<times> product) list" where
  "sold_items ps rs = concat (map (\<lambda>r. sold_in ps (items_of r)) rs)"

text \<open>The profit of one line item: the revenue of the strategy minus the cost.\<close>

definition item_profit :: "(item \<Rightarrow> product \<Rightarrow> jsnum) \<Rightarrow> item \<times> product \<Rightarrow> jsnum" where
  "item_profit calcRevenue = (\<lambda>(it, p). js_sub (calcRevenue it p) (js_mul (purchase_price p) (quantity it)))"

text \<open>
  Adding the quantity of a line item to the counter of its sku. The counter counts from 0
  when the sku has no counter yet and also when the counter is 0 or NaN.
\<close>

definition counter_of :: "jsval obj \<Rightarrow> string \<Rightarrow> jsnum" where
  "counter_of sold k = (case map_of sold k of
       Some (Num n) \<Rightarrow> if n = NaN \<or> n = Fin 0 then Fin 0 else n
     | _ \<Rightarrow> Fin 0)"

definition add_quantity :: "jsval obj \<Rightarrow> item \<times> product \<Rightarrow> jsval obj" where
  "add_quantity sold = (\<lambda>(it, p). obj_define sold (item_key it) (Num (js_add (counter_of sold (item_key it)) (quantity it))))"

text \<open>
  The counter as claim C3 words it: initialised to 0 on the first occurrence of the sku,
  and added to from then on.
\<close>

definition claimed_add_quantity :: "jsval obj \<Rightarrow> item \<times> product \<Rightarrow> jsval obj" where
  "claimed_add_quantity sold = (\<lambda>(it, p).
     obj_define sold (item_key it)
       (Num (js_add (case map_of sold (item_key it) of Some (Num n) \<Rightarrow> n | _ \<Rightarrow> Fin 0) (quantity it))))"

text \<open>No counter is a text.\<close>

definition no_text :: "jsval obj \<Rightarrow> bool" where
  "no_text sold = list_all (\<lambda>e. snd e \<noteq> Text) sold"

text \<open>
  What a list of records, all of one seller, adds to the statistic of that seller: one
  sale and the total amount per record, and the profit and the quantity of every line
  item that matches a product.
\<close>

definition accumulate ::
  "(item \<Rightarrow> product \<Rightarrow> jsnum) \<Rightarrow> product list \<Rightarrow> seller_stat \<Rightarrow> purchase_record list \<Rightarrow> seller_stat" where
  "accumulate calcRevenue ps s mine =
     s\<lparr> st_sales_count := st_sales_count s + length mine,
        st_revenue := foldl plus_value (st_revenue s) (map total_amount mine),
        st_profit := foldl js_add (st_profit s) (map (item_profit calcRevenue) (sold_items ps mine)),
        products_sold := foldl add_quantity (products_sold s) (sold_items ps mine) \<rparr>"

text \<open>The elements of a list in the order of their first occurrence.\<close>

definition first_occurrences :: "'a list \<Rightarrow> 'a list" where
  "first_occurrences xs = rev (remdups (rev xs))"

text \<open>Every counter is a number other than NaN.\<close>

definition numeric_counters :: "jsval obj \<Rightarrow> bool" where
  "numeric_counters sold = list_all (\<lambda>e. to_number (snd e) \<noteq> NaN) sold"

text \<open>
  \<open>arranged\<close> holds the entries of \<open>sold\<close> by descending quantity, entries of equal
  quantity in the order they have in \<open>sold\<close>.
\<close>

definition stable_descending :: "(string \<times> jsval) list \<Rightarrow> (string \<times> jsval) list \<Rightarrow> bool" where
  "stable_descending sold arranged \<longleftrightarrow>
     mset arranged = mset sold
     \<and> sorted_wrt (\<lambda>a b. js_ge (to_number (snd a)) (to_number (snd b))) arranged
     \<and> (\<forall>q. filter (\<lambda>e. to_number (snd e) = q) arranged = filter (\<lambda>e. to_number (snd e) = q) sold)"

text \<open>
  \<open>unchanged_below n h h'\<close>: the store has not shrunk and its first \<open>n\<close> cells are as
  they were. \<open>stats_written n h h'\<close>: the only cells that differ are elements of
  \<open>sellerStats\<close> at addresses from \<open>n\<close> on.
\<close>

definition unchanged_below :: "nat \<Rightarrow> store \<Rightarrow> store \<Rightarrow> bool" where
  "unchanged_below n h h' \<longleftrightarrow> length h \<le> length h' \<and> take n h' = take n h"

fun is_stat :: "cell \<Rightarrow> bool" where
  "is_stat (StatObj s b) = True"
| "is_stat c = False"

definition stats_written :: "nat \<Rightarrow> store \<Rightarrow> store \<Rightarrow> bool" where
  "stats_written n h h' \<longleftrightarrow>
     length h' = length h
     \<and> (\<forall>b<length h. h' ! b = h ! b \<or> (n \<le> b \<and> is_stat (h ! b) \<and> is_stat (h' ! b)))"

section \<open>Example inputs\<close>

text \<open>One seller, one product, one purchase of two units at 15 with a purchase price of 10.\<close>

definition seller_1 :: seller where
  "seller_1 = \<lparr> s_id = Str ''seller_1'', first_name = Str ''Alexey'', last_name = Str ''Petrov'' \<rparr>"

definition product_1 :: product where
  "product_1 = \<lparr> sku = Str ''SKU_001'', purchase_price = Fin 10 \<rparr>"

definition item_1 :: item where
  "item_1 = \<lparr> i_sku = Str ''SKU_001'', quantity = Fin 2, discount = Fin 0, sale_price = Fin 15 \<rparr>"

definition record_1 :: purchase_record where
  "record_1 = \<lparr> seller_id = Str ''seller_1'', total_amount = Number (Fin 30), items = Some [Some item_1] \<rparr>"

definition data_1 :: sales_data where
  "data_1 = \<lparr> sellers = IsArray [Some seller_1], products = IsArray [Some product_1],
       purchase_records = IsArray [Some record_1] \<rparr>"

definition reference_options :: options where
  "reference_options = \<lparr> calculateRevenue = Some calculateSimpleRevenue,
       calculateBonus = Some calculateBonusByProfit \<rparr>"

text \<open>A seller statistic with a profit of 100.\<close>

definition stat_100 :: seller_stat where
  "stat_100 = \<lparr> st_id = Str ''seller_1'', st_name = ''Alexey Petrov'', st_revenue = Number (Fin 300),
       st_profit = Fin 100, st_sales_count = 1, products_sold = [(''SKU_001'', Num (Fin 2))] \<rparr>"

text \<open>Two sellers; the second has the larger profit.\<close>

definition seller_2 :: seller where
  "seller_2 = \<lparr> s_id = Str ''seller_2'', first_name = Str ''Mikhail'', last_name = Str ''Nikolaev'' \<rparr>"

definition item_2 :: item where
  "item_2 = \<lparr> i_sku = Str ''SKU_001'', quantity = Fin 8, discount = Fin 0, sale_price = Fin 15 \<rparr>"

definition record_2 :: purchase_record where
  "record_2 = \<lparr> seller_id = Str ''seller_2'', total_amount = Number (Fin 120), items = Some [Some item_2] \<rparr>"

definition data_2 :: sales_data where
  "data_2 = \<lparr> sellers = IsArray [Some seller_1, Some seller_2], products = IsArray [Some product_1],
       purchase_records = IsArray [Some record_1, Some record_2] \<rparr>"

text \<open>A sale at a loss for the first seller, and a sale whose discount is NaN for the second.\<close>

definition item_loss :: item where
  "item_loss = \<lparr> i_sku = Str ''SKU_001'', quantity = Fin 1, discount = Fin 0, sale_price = Fin 5 \<rparr>"

definition item_nan :: item where
  "item_nan = \<lparr> i_sku = Str ''SKU_001'', quantity = Fin 2, discount = NaN, sale_price = Fin 15 \<rparr>"

definition record_loss :: purchase_record where
  "record_loss = \<lparr> seller_id = Str ''seller_1'', total_amount = Number (Fin 5), items = Some [Some item_loss] \<rparr>"

definition record_nan :: purchase_record where
  "record_nan = \<lparr> seller_id = Str ''seller_2'', total_amount = Number (Fin 30), items = Some [Some item_nan] \<rparr>"

definition data_nan :: sales_data where
  "data_nan = \<lparr> sellers = IsArray [Some seller_1, Some seller_2], products = IsArray [Some product_1],
       purchase_records = IsArray [Some record_loss, Some record_nan] \<rparr>"

text \<open>A purchase whose total amount is infinite.\<close>

definition record_inf :: purchase_record where
  "record_inf = \<lparr> seller_id = Str ''seller_1'', total_amount = Number PInf, items = Some [Some item_1] \<rparr>"

definition data_inf :: sales_data where
  "data_inf = \<lparr> sellers = IsArray [Some seller_1], products = IsArray [Some product_1],
       purchase_records = IsArray [Some record_inf] \<rparr>"

definition rows_2 :: "row list" where
  "rows_2 = [\<lparr> row_seller_id = ''seller_2'', row_name = ''Mikhail Nikolaev'',
                row_revenue = Fin 120, row_profit = Fin 40, row_sales_count = 1,
                row_top_products = [(''SKU_001'', Num (Fin 8))], row_bonus = Fin 6 \<rparr>,
             \<lparr> row_seller_id = ''seller_1'', row_name = ''Alexey Petrov'',
                row_revenue = Fin 30, row_profit = Fin 10, row_sales_count = 1,
                row_top_products = [(''SKU_001'', Num (Fin 2))], row_bonus = Fin 1 \<rparr>]"

definition ranked_2 :: "ranked_stat list" where
  "ranked_2 = [\<lparr> st_id = Str ''seller_2'', st_name = ''Mikhail Nikolaev'',
                  st_revenue = Number (Fin 120), st_profit = Fin 40, st_sales_count = 1,
                  products_sold = [(''SKU_001'', Num (Fin 8))], st_bonus = Fin 6,
                  st_top_products = [(''SKU_001'', Num (Fin 8))] \<rparr>,
               \<lparr> st_id = Str ''seller_1'', st_name = ''Alexey Petrov'',
                  st_revenue = Number (Fin 30), st_profit = Fin 10, st_sales_count = 1,
                  products_sold = [(''SKU_001'', Num (Fin 2))], st_bonus = Fin 1,
                  st_top_products = [(''SKU_001'', Num (Fin 2))] \<rparr>]"

definition rows_nan :: "row list" where
  "rows_nan = [\<lparr> row_seller_id = ''seller_1'', row_name = ''Alexey Petrov'',
                  row_revenue = Fin 5, row_profit = Fin (- 5), row_sales_count = 1,
                  row_top_products = [(''SKU_001'', Num (Fin 1))],
                  row_bonus = Fin (- (3 / 4)) \<rparr>,
               \<lparr> row_seller_id = ''seller_2'', row_name = ''Mikhail Nikolaev'',
                  row_revenue = Fin 30, row_profit = Fin 0, row_sales_count = 1,
                  row_top_products = [(''SKU_001'', Num (Fin 2))], row_bonus = Fin 0 \<rparr>]"

definition rows_inf :: "row list" where
  "rows_inf = [\<lparr> row_seller_id = ''seller_1'', row_name = ''Alexey Petrov'',
                  row_revenue = PInf, row_profit = Fin 10, row_sales_count = 1,
                  row_top_products = [(''SKU_001'', Num (Fin 2))],
                  row_bonus = Fin (3 / 2) \<rparr>]"



text \<open>Three records: one of the seller, one of an unknown seller, and one of the seller with a line item of an unknown product.\<close>

definition item_unknown :: item where
  "item_unknown = \<lparr> i_sku = Str ''SKU_999'', quantity = Fin 3, discount = Fin 0, sale_price = Fin 5 \<rparr>"

definition record_stranger :: purchase_record where
  "record_stranger = \<lparr> seller_id = Str ''seller_9'', total_amount = Number (Fin 50), items = Some [Some item_1] \<rparr>"

definition record_mixed :: purchase_record where
  "record_mixed = \<lparr> seller_id = Str ''seller_1'', total_amount = Number (Fin 45),
       items = Some [Some item_unknown, Some item_1] \<rparr>"

definition records_gaps :: "purchase_record list" where
  "records_gaps = [record_1, record_stranger, record_mixed]"


definition stat_gaps :: seller_stat where
  "stat_gaps = \<lparr> st_id = Str ''seller_1'', st_name = ''Alexey Petrov'', st_revenue = Number (Fin 75),
       st_profit = Fin 20, st_sales_count = 2, products_sold = [(''SKU_001'', Num (Fin 4))] \<rparr>"

text \<open>A record whose first line item has the quantity NaN and whose second one has the quantity 5.\<close>

definition item_q_nan :: item where
  "item_q_nan = \<lparr> i_sku = Str ''SKU_001'', quantity = NaN, discount = Fin 0, sale_price = Fin 15 \<rparr>"

definition item_q5 :: item where
  "item_q5 = \<lparr> i_sku = Str ''SKU_001'', quantity = Fin 5, discount = Fin 0, sale_price = Fin 15 \<rparr>"

definition record_nan_qty :: purchase_record where
  "record_nan_qty = \<lparr> seller_id = Str ''seller_1'', total_amount = Number (Fin 75),
       items = Some [Some item_q_nan, Some item_q5] \<rparr>"

text \<open>Two products whose skus are the decimal strings 1 and 2, sold in the order 2, 1.\<close>

definition product_n1 :: product where
  "product_n1 = \<lparr> sku = Str ''1'', purchase_price = Fin 10 \<rparr>"

definition product_n2 :: product where
  "product_n2 = \<lparr> sku = Str ''2'', purchase_price = Fin 10 \<rparr>"

definition item_n1 :: item where
  "item_n1 = \<lparr> i_sku = Str ''1'', quantity = Fin 1, discount = Fin 0, sale_price = Fin 15 \<rparr>"

definition item_n2 :: item where
  "item_n2 = \<lparr> i_sku = Str ''2'', quantity = Fin 1, discount = Fin 0, sale_price = Fin 15 \<rparr>"

definition record_n :: purchase_record where
  "record_n = \<lparr> seller_id = Str ''seller_1'', total_amount = Number (Fin 30), items = Some [Some item_n2, Some item_n1] \<rparr>"

definition data_n :: sales_data where
  "data_n = \<lparr> sellers = IsArray [Some seller_1], products = IsArray [Some product_n1, Some product_n2],
       purchase_records = IsArray [Some record_n] \<rparr>"

text \<open>Three products sold in the order SKU_002, SKU_001, SKU_003 with quantities 1, 3, 1.\<close>

definition product_2 :: product where
  "product_2 = \<lparr> sku = Str ''SKU_002'', purchase_price = Fin 20 \<rparr>"

definition product_3 :: product where
  "product_3 = \<lparr> sku = Str ''SKU_003'', purchase_price = Fin 30 \<rparr>"

definition item_b :: item where
  "item_b = \<lparr> i_sku = Str ''SKU_002'', quantity = Fin 1, discount = Fin 0, sale_price = Fin 25 \<rparr>"

definition item_a :: item where
  "item_a = \<lparr> i_sku = Str ''SKU_001'', quantity = Fin 3, discount = Fin 0, sale_price = Fin 15 \<rparr>"

definition item_c :: item where
  "item_c = \<lparr> i_sku = Str ''SKU_003'', quantity = Fin 1, discount = Fin 0, sale_price = Fin 35 \<rparr>"

definition record_top :: purchase_record where
  "record_top = \<lparr> seller_id = Str ''seller_1'', total_amount = Number (Fin 105),
       items = Some [Some item_b, Some item_a, Some item_c] \<rparr>"

definition data_top :: sales_data where
  "data_top = \<lparr> sellers = IsArray [Some seller_1], products = IsArray [Some product_1, Some product_2, Some product_3],
       purchase_records = IsArray [Some record_top] \<rparr>"

definition rows_n :: "row list" where
  "rows_n = [\<lparr> row_seller_id = ''seller_1'', row_name = ''Alexey Petrov'',
                row_revenue = Fin 30, row_profit = Fin 10, row_sales_count = 1,
                row_top_products = [(''1'', Num (Fin 1)), (''2'', Num (Fin 1))],
                row_bonus = Fin (3 / 2) \<rparr>]"

definition rows_top :: "row list" where
  "rows_top = [\<lparr> row_seller_id = ''seller_1'', row_name = ''Alexey Petrov'',
                  row_revenue = Fin 105, row_profit = Fin 25, row_sales_count = 1,
                  row_top_products = [(''SKU_001'', Num (Fin 3)), (''SKU_002'', Num (Fin 1)),
                     (''SKU_003'', Num (Fin 1))],
                  row_bonus = Fin (15 / 4) \<rparr>]"

definition ranked_top :: "ranked_stat list" where
  "ranked_top = [\<lparr> st_id = Str ''seller_1'', st_name = ''Alexey Petrov'',
                    st_revenue = Number (Fin 105), st_profit = Fin 25, st_sales_count = 1,
                    products_sold = [(''SKU_002'', Num (Fin 1)), (''SKU_001'', Num (Fin 3)),
                       (''SKU_003'', Num (Fin 1))],
                    st_bonus = Fin (15 / 4),
                    st_top_products = [(''SKU_001'', Num (Fin 3)), (''SKU_002'', Num (Fin 1)),
                       (''SKU_003'', Num (Fin 1))] \<rparr>]"

text \<open>
  Two sellers whose identifiers are the numbers 7 and 0, and a purchase of the first.
\<close>

definition seller_seven :: seller where
  "seller_seven = \<lparr> s_id = Number (Fin 7), first_name = Str ''Ivan'', last_name = Str ''Sokolov'' \<rparr>"

definition seller_zero :: seller where
  "seller_zero = \<lparr> s_id = Number (Fin 0), first_name = Str ''Olga'', last_name = Str ''Orlova'' \<rparr>"

definition record_seven :: purchase_record where
  "record_seven = \<lparr> seller_id = Number (Fin 7), total_amount = Number (Fin 30),
       items = Some [Some item_1] \<rparr>"

definition data_ids :: sales_data where
  "data_ids = \<lparr> sellers = IsArray [Some seller_seven, Some seller_zero],
       products = IsArray [Some product_1], purchase_records = IsArray [Some record_seven] \<rparr>"

definition rows_ids :: "row list" where
  "rows_ids = [\<lparr> row_seller_id = ''7'', row_name = ''Ivan Sokolov'',
                  row_revenue = Fin 30, row_profit = Fin 10, row_sales_count = 1,
                  row_top_products = [(''SKU_001'', Num (Fin 2))], row_bonus = Fin (3 / 2) \<rparr>,
               \<lparr> row_seller_id = [], row_name = ''Olga Orlova'',
                  row_revenue = Fin 0, row_profit = Fin 0, row_sales_count = 0,
                  row_top_products = [], row_bonus = Fin 0 \<rparr>]"

text \<open>
  The first example as a store: the seller, the product, the item, the array of items,
  the record, the three arrays, the data object at address 8 and the options at 9; and
  the store after the call.
\<close>

definition store_1 :: store where
  "store_1 = [SellerObj seller_1, ProductObj product_1, ItemObj item_1, ArrayObj [2],
     RecordObj (Str ''seller_1'') (Number (Fin 30)) (Some 3), ArrayObj [0], ArrayObj [1], ArrayObj [4],
     DataObj (Some 5) (Some 6) (Some 7), OptionsObj reference_options]"

definition final_1 :: store where
  "final_1 = store_1 @
     [StatObj \<lparr> st_id = Str ''seller_1'', st_name = ''Alexey Petrov'', st_revenue = Number (Fin 30),
          st_profit = Fin 10, st_sales_count = 1,
          products_sold = [(''SKU_001'', Num (Fin 2))] \<rparr>
        (Some (Fin (3 / 2), [(''SKU_001'', Num (Fin 2))])),
      ArrayObj [10],
      RowObj \<lparr> row_seller_id = ''seller_1'', row_name = ''Alexey Petrov'',
          row_revenue = Fin 30, row_profit = Fin 10, row_sales_count = 1,
          row_top_products = [(''SKU_001'', Num (Fin 2))], row_bonus = Fin (3 / 2) \<rparr>,
      ArrayObj [12]]"

text \<open>
  A store whose only purchase record has the \<open>seller_id\<close> \<open>__proto__\<close>, a total amount
  of 30 and an empty array of items: the seller, the product, the array of items, the
  record, the three arrays, the data object at address 7 and the options at 8; and the
  store and the realm after the call.
\<close>

definition store_proto :: store where
  "store_proto = [SellerObj seller_1, ProductObj product_1, ArrayObj [],
     RecordObj (Str ''__proto__'') (Number (Fin 30)) (Some 2), ArrayObj [0], ArrayObj [1],
     ArrayObj [3], DataObj (Some 4) (Some 5) (Some 6), OptionsObj reference_options]"

definition final_proto :: store where
  "final_proto = store_proto @
     [StatObj \<lparr> st_id = Str ''seller_1'', st_name = ''Alexey Petrov'', st_revenue = Number (Fin 0),
          st_profit = Fin 0, st_sales_count = 0, products_sold = [] \<rparr>
        (Some (Fin 0, [])),
      ArrayObj [9],
      RowObj \<lparr> row_seller_id = ''seller_1'', row_name = ''Alexey Petrov'',
          row_revenue = Fin 0, row_profit = Fin 0, row_sales_count = 0,
          row_top_products = [], row_bonus = Fin 0 \<rparr>,
      ArrayObj [11]]"

definition realm_proto :: realm where
  "realm_proto = pristine(''__proto__'' := [(''sales_count'', NaN_written), (''revenue'', NaN_written)])"

section \<open>The errors of the aggregation\<close>

lemma without_counters_error: "without_counters pidx rl its stats = Inl e \<Longrightarrow> e = TypeError"
  by (auto simp: without_counters_def split: option.splits if_splits)

lemma apply_items_error: "apply_items cr pidx rl s its = Inl e \<Longrightarrow> e = TypeError"
proof (induction its arbitrary: s)
  case Nil
  then show ?case by simp
next
  case (Cons it its)
  then show ?case by (cases it) auto
qed

lemma apply_record_error:
  "apply_record calcRevenue productIndex sellerIndex rl sellerStats record = Inl e \<Longrightarrow> e = TypeError"
  by (auto simp: apply_record_def Let_def
      split: lookup.splits option.splits if_splits sum.splits
      dest: without_counters_error apply_items_error)

lemma process_records_error:
  "process_records calcRevenue productIndex sellerIndex rl sellerStats rs = Inl e \<Longrightarrow> e = TypeError"
proof (induction rs arbitrary: sellerStats rl)
  case Nil
  then show ?case by simp
next
  case (Cons r rest)
  show ?case
  proof (cases r)
    case None
    with Cons.prems show ?thesis by simp
  next
    case (Some rcd)
    show ?thesis
    proof (cases "apply_record calcRevenue productIndex sellerIndex rl sellerStats rcd")
      case (Inl e')
      with Cons.prems Some have "e = e'" by simp
      with Inl show ?thesis by (simp add: apply_record_error)
    next
      case (Inr sellerStats')
      with Cons.prems Some Cons.IH [of "realm_after sellerIndex rl rcd" sellerStats']
      show ?thesis by simp
    qed
  qed
qed

lemma aggregate_error: "aggregate calcRevenue ss ps rs = Inl e \<Longrightarrow> e = TypeError"
  by (simp add: aggregate_def Let_def process_records_error)

lemma aggregate_not_invalid: "aggregate calcRevenue ss ps rs \<noteq> Inl InvalidInputError"
  using aggregate_error [of calcRevenue ss ps rs InvalidInputError] by auto

lemma fixed2_error: "fixed2 v = Inl e \<Longrightarrow> e = TypeError"
  by (auto simp: fixed2_def split: if_splits prim.splits)

lemma format_row_error: "format_row s = Inl e \<Longrightarrow> e = TypeError"
  by (auto simp: format_row_def Let_def split: sum.splits dest: fixed2_error)

lemma collect_Inl: "collect xs = Inl e \<Longrightarrow> Inl e \<in> set xs"
proof (induction xs)
  case Nil
  then show ?case by simp
next
  case (Cons x xs)
  then show ?case by (cases x) (auto split: sum.splits)
qed

lemma collect_map_Inr: "collect (map Inr ys) = Inr ys"
  by (induction ys) auto

lemma collect_Inr: "collect xs = Inr ys \<longleftrightarrow> xs = map Inr ys"
proof
  show "collect xs = Inr ys \<Longrightarrow> xs = map Inr ys"
  proof (induction xs arbitrary: ys)
    case Nil
    then show ?case by simp
  next
    case (Cons x xs)
    show ?case
    proof (cases x)
      case (Inl e)
      with Cons.prems show ?thesis by simp
    next
      case (Inr y)
      with Cons.prems obtain zs where "collect xs = Inr zs" "ys = y # zs"
        by (auto split: sum.splits)
      with Cons.IH [of zs] Inr show ?thesis by simp
    qed
  qed
qed (simp add: collect_map_Inr)

lemma those_map_Some: "those (map Some ys) = Some ys"
  by (induction ys) auto

lemma those_Some: "those xs = Some ys \<longleftrightarrow> xs = map Some ys"
proof
  show "those xs = Some ys \<Longrightarrow> xs = map Some ys"
  proof (induction xs arbitrary: ys)
    case Nil
    then show ?case by simp
  next
    case (Cons x xs)
    show ?case
    proof (cases x)
      case None
      with Cons.prems show ?thesis by simp
    next
      case (Some y)
      with Cons.prems obtain zs where "those xs = Some zs" "ys = y # zs"
        by (auto split: option.splits)
      with Cons.IH [of zs] Some show ?thesis by simp
    qed
  qed
qed (simp add: those_map_Some)

section \<open>The reference bonus strategy\<close>

text \<open>
  Claim C1 says that with a single seller the bonus is 0, the rule of the last rank
  winning over the rule of the first rank. The code tests \<open>index === 0\<close> first, so the
  sole seller is paid as the first rank: with a profit of 100 the bonus is 15.
\<close>

theorem sole_seller_bonus_not_zero:
  "calculateBonusByProfit 0 1 stat_100 = Fin 15 \<and> calculateBonusByProfit 0 1 stat_100 \<noteq> Fin 0"
  by (simp add: calculateBonusByProfit_def stat_100_def)

text \<open>
  Claim C1, amended: with the reference bonus strategy, when the total number of sellers
  is 1, the sole seller's bonus is 15% of the profit (the rule of the first rank takes
  precedence over the rule of the last rank): \<open>calculateBonusByProfit(0, 1, seller)\<close> is
  \<open>seller.profit * 0.15\<close> for every seller.
\<close>

theorem sole_seller_bonus:
  "calculateBonusByProfit 0 1 seller = js_mul (st_profit seller) (Fin (15 / 100))"
  by (simp add: calculateBonusByProfit_def)

theorem sole_seller_bonus_witness:
  "calculateBonusByProfit 0 1 stat_100 = js_mul (Fin 100) (Fin (15 / 100))"
  using sole_seller_bonus [of stat_100] by (simp add: stat_100_def)

text \<open>
  Claim C4 says that the bonus is 0 whenever \<open>index = total - 1\<close>. The code reaches that
  test only when the index is none of 0, 1 and 2: the last of two sellers is paid 10%.
\<close>

theorem last_of_two_bonus_not_zero:
  "calculateBonusByProfit 1 2 stat_100 = Fin 10 \<and> calculateBonusByProfit 1 2 stat_100 \<noteq> Fin 0"
  by (simp add: calculateBonusByProfit_def stat_100_def)

text \<open>
  Claim C4, amended: \<open>calculateBonusByProfit(index, total, seller)\<close> returns
  \<open>0.15 * seller.profit\<close> when the index is 0; \<open>0.10 * seller.profit\<close> when the index is 1
  or 2; 0 when the index is \<open>total - 1\<close> and is none of 0, 1 and 2; and
  \<open>0.05 * seller.profit\<close> for every other rank.
\<close>

theorem bonus_by_rank:
  "(index = 0 \<longrightarrow>
      calculateBonusByProfit index total_sellers seller = js_mul (st_profit seller) (Fin (15 / 100)))
   \<and> (index = 1 \<or> index = 2 \<longrightarrow>
      calculateBonusByProfit index total_sellers seller = js_mul (st_profit seller) (Fin (10 / 100)))
   \<and> (index = total_sellers - 1 \<and> index \<noteq> 0 \<and> index \<noteq> 1 \<and> index \<noteq> 2 \<longrightarrow>
      calculateBonusByProfit index total_sellers seller = Fin 0)
   \<and> (index \<noteq> 0 \<and> index \<noteq> 1 \<and> index \<noteq> 2 \<and> index \<noteq> total_sellers - 1 \<longrightarrow>
      calculateBonusByProfit index total_sellers seller = js_mul (st_profit seller) (Fin (5 / 100)))"
  by (simp add: calculateBonusByProfit_def)

theorem bonus_by_rank_witness:
  "calculateBonusByProfit 0 5 stat_100 = js_mul (Fin 100) (Fin (15 / 100))
   \<and> calculateBonusByProfit 2 5 stat_100 = js_mul (Fin 100) (Fin (10 / 100))
   \<and> calculateBonusByProfit 4 5 stat_100 = Fin 0
   \<and> calculateBonusByProfit 3 5 stat_100 = js_mul (Fin 100) (Fin (5 / 100))"
  using bonus_by_rank [of 0 5 stat_100] bonus_by_rank [of 2 5 stat_100]
    bonus_by_rank [of 4 5 stat_100] bonus_by_rank [of 3 5 stat_100]
  by (simp add: stat_100_def)

section \<open>Validation\<close>

text \<open>
  Claim C5: \<open>analyzeSalesData\<close> throws the invalid-input error exactly when the input
  data is null or missing, or one of \<open>sellers\<close>, \<open>products\<close>, \<open>purchase_records\<close> is not
  an array, or one of the three arrays is empty. The error does not depend on the options
  or on the elements of the arrays: it is raised before anything else is looked at, and
  one failing condition is enough.
\<close>

theorem invalid_input_iff:
  "analyzeSalesData data opts = Inl InvalidInputError \<longleftrightarrow>
     (data = None
      \<or> (\<exists>d. data = Some d
            \<and> (\<not> isArray (sellers d) \<or> \<not> isArray (products d) \<or> \<not> isArray (purchase_records d)
               \<or> elements (sellers d) = [] \<or> elements (products d) = []
               \<or> elements (purchase_records d) = [])))"
proof (cases "validate data")
  case None
  then show ?thesis
    by (auto simp: analyzeSalesData_def ranked_sellerStats_def validate_def
        split: option.splits if_splits)
next
  case (Some v)
  have r: "ranked_sellerStats data opts \<noteq> Inl InvalidInputError"
    using Some aggregate_not_invalid
    by (auto simp: ranked_sellerStats_def split: option.splits sum.splits prod.splits)
  have "analyzeSalesData data opts \<noteq> Inl InvalidInputError"
  proof
    assume a: "analyzeSalesData data opts = Inl InvalidInputError"
    with r obtain stats where "collect (map format_row stats) = Inl InvalidInputError"
      by (auto simp: analyzeSalesData_def split: sum.splits)
    then have "Inl InvalidInputError \<in> set (map format_row stats)"
      by (rule collect_Inl)
    then obtain s where "format_row s = Inl InvalidInputError"
      by auto
    then show False
      using format_row_error by fastforce
  qed
  with Some show ?thesis
    by (auto simp: validate_def split: option.splits if_splits)
qed

theorem invalid_input_iff_witness:
  "analyzeSalesData (Some \<lparr> sellers = IsArray [], products = IsArray [Some product_1],
       purchase_records = IsArray [Some record_1] \<rparr>) None = Inl InvalidInputError
   \<and> analyzeSalesData (Some data_1) (Some reference_options) \<noteq> Inl InvalidInputError"
  using invalid_input_iff [of "Some \<lparr> sellers = IsArray [], products = IsArray [Some product_1],
       purchase_records = IsArray [Some record_1] \<rparr>" None]
    invalid_input_iff [of "Some data_1" "Some reference_options"]
  by (simp add: data_1_def)

section \<open>The sort\<close>

lemma mset_insert_by: "mset (insert_by cmp x xs) = add_mset x (mset xs)"
  by (induction xs) auto

lemma array_sort_Cons: "array_sort cmp (x # xs) = insert_by cmp x (array_sort cmp xs)"
  by (simp add: array_sort_def)

lemma array_sort_Nil: "array_sort cmp [] = []"
  by (simp add: array_sort_def)

lemma mset_array_sort: "mset (array_sort cmp xs) = mset xs"
  by (induction xs) (auto simp: array_sort_Cons array_sort_Nil mset_insert_by)

lemma set_array_sort: "set (array_sort cmp xs) = set xs"
  using mset_array_sort [of cmp xs] by (metis set_mset_mset)

lemma length_array_sort: "length (array_sort cmp xs) = length xs"
  using mset_array_sort [of cmp xs] by (metis size_mset)

lemma js_ge_total: "a \<noteq> NaN \<Longrightarrow> b \<noteq> NaN \<Longrightarrow> js_ge a b \<or> js_ge b a"
  by (cases a; cases b) auto

lemma js_ge_trans: "js_ge a b \<Longrightarrow> js_ge b c \<Longrightarrow> js_ge a c"
  by (cases a; cases b; cases c) auto

lemma js_positive_sub: "a \<noteq> NaN \<Longrightarrow> b \<noteq> NaN \<Longrightarrow> js_positive (js_sub b a) \<longleftrightarrow> \<not> js_ge a b"
  by (cases a; cases b) (auto simp: js_sub_def)

lemma set_insert_by: "set (insert_by cmp x xs) = insert x (set xs)"
  by (induction xs) auto

lemma sorted_insert_by:
  assumes "\<forall>y\<in>set xs. key y \<noteq> NaN" and "key x \<noteq> NaN"
    and "sorted_wrt (\<lambda>a b. js_ge (key a) (key b)) xs"
  shows "sorted_wrt (\<lambda>a b. js_ge (key a) (key b)) (insert_by (\<lambda>a b. js_sub (key b) (key a)) x xs)"
  using assms
proof (induction xs)
  case Nil
  then show ?case by simp
next
  case (Cons y ys)
  show ?case
  proof (cases "js_positive (js_sub (key y) (key x))")
    case True
    then have yx: "js_ge (key y) (key x)"
      using Cons.prems js_positive_sub [of "key x" "key y"] js_ge_total [of "key x" "key y"] by auto
    have "sorted_wrt (\<lambda>a b. js_ge (key a) (key b)) (insert_by (\<lambda>a b. js_sub (key b) (key a)) x ys)"
      using Cons by simp
    with True yx Cons.prems show ?thesis
      by (auto simp: set_insert_by)
  next
    case False
    then have xy: "js_ge (key x) (key y)"
      using Cons.prems js_positive_sub [of "key x" "key y"] by auto
    with False Cons.prems show ?thesis
      by (auto intro: js_ge_trans)
  qed
qed

section \<open>Rounding\<close>

lemma half_up_mono: "a \<le> b \<Longrightarrow> half_up a \<le> half_up b"
  unfolding half_up_def by (intro divide_right_mono iffD2 [OF of_int_le_iff] floor_mono) auto

lemma half_up_nonneg: "0 \<le> a \<Longrightarrow> 0 \<le> half_up a"
  unfolding half_up_def by simp

lemma half_up_close: "\<bar>half_up a - a\<bar> \<le> 1 / 200"
proof -
  define n where "n = \<lfloor>a * 100 + 1 / 2\<rfloor>"
  have "real_of_int n \<le> a * 100 + 1 / 2" and "a * 100 + 1 / 2 < real_of_int n + 1"
    unfolding n_def by linarith+
  then have "\<bar>real_of_int n / 100 - a\<bar> \<le> 1 / 200"
    by linarith
  then show ?thesis by (simp add: half_up_def n_def)
qed

lemma half_up_bound: "0 \<le> a \<Longrightarrow> a < 10 ^ 21 \<Longrightarrow> half_up a \<le> 10 ^ 21"
proof -
  assume a: "0 \<le> a" "a < 10 ^ 21"
  define n where "n = \<lfloor>a * 100 + 1 / 2\<rfloor>"
  have "a * 100 + 1 / 2 < 10 ^ 23 + 1" using a by simp
  then have "a * 100 + 1 / 2 < real_of_int (10 ^ 23 + 1)" by simp
  then have "n < 10 ^ 23 + 1"
    unfolding n_def by (simp only: floor_less_iff)
  then have "n \<le> 10 ^ 23" by simp
  then have "real_of_int n \<le> real_of_int (10 ^ 23)" by (simp only: of_int_le_iff)
  then have "real_of_int n / 100 \<le> 10 ^ 21" by simp
  then show ?thesis by (simp add: half_up_def n_def)
qed

lemma round2_mono: "x \<le> y \<Longrightarrow> round2 x \<le> round2 y"
  using half_up_mono [of x y] half_up_mono [of "- y" "- x"] half_up_nonneg [of y]
    half_up_nonneg [of "- x"]
  by (auto simp: round2_def)

lemma round2_hundredth: "\<exists>n::int. round2 x = real_of_int n / 100"
proof (cases "x < 0")
  case True
  have "round2 x = real_of_int (- \<lfloor>(- x) * 100 + 1 / 2\<rfloor>) / 100"
    using True by (simp add: round2_def half_up_def)
  then show ?thesis by blast
next
  case False
  then show ?thesis by (auto simp: round2_def half_up_def)
qed

lemma round2_close: "\<bar>round2 x - x\<bar> \<le> 1 / 200"
proof (cases "x < 0")
  case True
  then have "round2 x - x = - (half_up (- x) - (- x))" by (simp add: round2_def)
  then show ?thesis using half_up_close [of "- x"] by linarith
next
  case False
  then show ?thesis using half_up_close [of x] by (simp add: round2_def)
qed

lemma round2_bound: "\<bar>x\<bar> < 10 ^ 21 \<Longrightarrow> \<bar>round2 x\<bar> \<le> 10 ^ 21"
  using half_up_bound [of x] half_up_bound [of "- x"] half_up_nonneg [of x]
    half_up_nonneg [of "- x"]
  by (auto simp: round2_def)

lemma toFixed2_mono: "js_ge a b \<Longrightarrow> js_ge (toFixed2 a) (toFixed2 b)"
proof (cases a; cases b)
  fix x y
  assume a: "a = Fin x" and b: "b = Fin y" and ge: "js_ge a b"
  then have yx: "y \<le> x" by simp
  consider "10 ^ 21 \<le> \<bar>x\<bar>" "10 ^ 21 \<le> \<bar>y\<bar>" | "10 ^ 21 \<le> \<bar>x\<bar>" "\<bar>y\<bar> < 10 ^ 21"
    | "\<bar>x\<bar> < 10 ^ 21" "10 ^ 21 \<le> \<bar>y\<bar>" | "\<bar>x\<bar> < 10 ^ 21" "\<bar>y\<bar> < 10 ^ 21"
    by linarith
  then show ?thesis
  proof cases
    case 1
    with a b yx show ?thesis by simp
  next
    case 2
    with yx have "10 ^ 21 \<le> x" by linarith
    with 2 round2_bound [of y] a b show ?thesis by simp
  next
    case 3
    with yx have "y \<le> - (10 ^ 21)" by linarith
    with 3 round2_bound [of x] a b show ?thesis by simp
  next
    case 4
    with a b yx round2_mono [of y x] show ?thesis by simp
  qed
qed auto

section \<open>Identifiers through the stages\<close>

lemma apply_item_id: "st_id (apply_item cr pidx rl s it) = st_id s"
  by (simp add: apply_item_def Let_def split: lookup.splits)

lemma foldl_apply_item_id: "st_id (foldl (apply_item cr pidx rl) s its) = st_id s"
  by (induction its arbitrary: s) (auto simp: apply_item_id)

lemma apply_items_map_Some:
  "apply_items cr pidx rl s (map Some its) = Inr (foldl (apply_item cr pidx rl) s its)"
  by (induction its arbitrary: s) auto

lemma apply_items_Inr:
  assumes "apply_items cr pidx rl s its = Inr s'"
  shows "its = map Some (objects its) \<and> s' = foldl (apply_item cr pidx rl) s (objects its)"
  using assms
proof (induction its arbitrary: s)
  case Nil
  then show ?case by simp
next
  case (Cons it its)
  then show ?case by (cases it) auto
qed

lemma apply_items_id: "apply_items cr pidx rl s its = Inr s' \<Longrightarrow> st_id s' = st_id s"
  by (auto dest!: apply_items_Inr simp: foldl_apply_item_id)

lemma map_update_same: "(map f xs)[i := f (xs ! i)] = map f xs"
  by (metis list_update_id map_update)

lemma without_counters_Inr: "without_counters pidx rl its stats = Inr stats' \<Longrightarrow> stats' = stats"
  by (auto simp: without_counters_def split: option.splits if_splits)

lemma apply_record_ids:
  assumes "apply_record cr pidx sidx rl stats r = Inr stats'"
  shows "map st_id stats' = map st_id stats"
proof (cases "obj_get sidx (record_key r)")
  case Absent
  with assms show ?thesis
    by (auto simp: apply_record_def dest: without_counters_Inr split: if_splits)
next
  case Inherited
  with assms show ?thesis
    by (auto simp: apply_record_def dest: without_counters_Inr)
next
  case (Own i)
  let ?s = "(stats ! i)\<lparr> st_sales_count := st_sales_count (stats ! i) + 1,
                 st_revenue := plus_value (st_revenue (stats ! i)) (total_amount r) \<rparr>"
  from assms Own obtain its s' where s': "apply_items cr pidx rl ?s its = Inr s'"
    and stats': "stats' = stats[i := s']"
    by (auto simp: apply_record_def Let_def split: option.splits sum.splits)
  have "st_id s' = st_id (stats ! i)"
    using apply_items_id [OF s'] by simp
  then show ?thesis
    by (simp add: stats' map_update map_update_same)
qed

lemma process_records_ids:
  "process_records cr pidx sidx rl stats rs = Inr stats' \<Longrightarrow> map st_id stats' = map st_id stats"
proof (induction rs arbitrary: stats rl)
  case Nil
  then show ?case by simp
next
  case (Cons r rest)
  show ?case
  proof (cases r)
    case None
    with Cons.prems show ?thesis by simp
  next
    case (Some rcd)
    with Cons.prems obtain stats1 where a: "apply_record cr pidx sidx rl stats rcd = Inr stats1"
      and b: "process_records cr pidx sidx (realm_after sidx rl rcd) stats1 rest = Inr stats'"
      by (auto split: sum.splits)
    from Cons.IH [OF b] apply_record_ids [OF a] show ?thesis by simp
  qed
qed

lemma aggregate_ids:
  "aggregate cr ss ps rs = Inr stats \<Longrightarrow> map st_id stats = map s_id ss"
  by (auto simp: aggregate_def Let_def init_stat_def comp_def dest!: process_records_ids)

lemma map_enumerate_field:
  "(\<And>i s. h (F i s) = g s) \<Longrightarrow> map h (map (\<lambda>(i, s). F i s) (enumerate n xs)) = map g xs"
  by (induction xs arbitrary: n) auto

lemma assign_bonus_ids: "map st_id (assign_bonus cb stats) = map st_id stats"
  unfolding assign_bonus_def by (rule map_enumerate_field) simp

lemma format_row_Inr:
  assumes "format_row s = Inr r"
  shows "row_seller_id r = string_or_empty (st_id s)" and "row_name r = st_name s"
    and "fixed2 (st_revenue s) = Inr (row_revenue r)"
    and "row_profit r = (if isNaN (st_profit s) then Fin 0 else toFixed2 (st_profit s))"
    and "row_bonus r = (if isNaN (st_bonus s) then Fin 0 else toFixed2 (st_bonus s))"
    and "row_top_products r = st_top_products s"
    and "row_sales_count r = st_sales_count s"
  using assms
  by (auto simp: format_row_def Let_def string_or_empty_def split: sum.splits)

section \<open>The stages of analyzeSalesData\<close>

lemma analyzeSalesData_Inr:
  "analyzeSalesData data opts = Inr rows \<longleftrightarrow>
     (\<exists>sellerStats. ranked_sellerStats data opts = Inr sellerStats
        \<and> map format_row sellerStats = map Inr rows)"
  by (auto simp: analyzeSalesData_def collect_Inr split: sum.splits)

lemma formatted_nth:
  assumes "map format_row sellerStats = map Inr rows"
  shows "length rows = length sellerStats"
    and "i < length rows \<Longrightarrow> format_row (sellerStats ! i) = Inr (rows ! i)"
proof -
  show len: "length rows = length sellerStats"
    using arg_cong [OF assms, of length] by simp
  show "format_row (sellerStats ! i) = Inr (rows ! i)" if "i < length rows"
    using arg_cong [OF assms, of "\<lambda>xs. xs ! i"] that len by simp
qed

lemma ranked_sellerStats_Inr:
  assumes "ranked_sellerStats data opts = Inr ranked"
  obtains ss ps rs opt calcRevenue calcBonus sellerStats where
    "validate data = Some (map Some ss, map Some ps, rs)" "opts = Some opt"
    "calculateRevenue opt = Some calcRevenue" "calculateBonus opt = Some calcBonus"
    "aggregate calcRevenue ss ps rs = Inr sellerStats"
    "ranked = assign_bonus calcBonus (array_sort by_profit sellerStats)"
  using assms
  by (auto simp: ranked_sellerStats_def those_Some split: option.splits sum.splits prod.splits)

lemma ranked_2_eval: "ranked_sellerStats (Some data_2) (Some reference_options) = Inr ranked_2"
  by code_simp

lemma rows_2_eval: "analyzeSalesData (Some data_2) (Some reference_options) = Inr rows_2"
  by code_simp

section \<open>The sellers of the output\<close>

text \<open>
  Claim C9 says that the set of the \<open>seller_id\<close> values of the output is the set of the
  \<open>id\<close> values of the input sellers. The output holds \<open>String(seller.id || '')\<close>: for
  the sellers with the identifiers 7 and 0 the output holds the strings \<open>7\<close> and the
  empty string, which is the identifier of no seller and the string of none.
\<close>

theorem seller_id_not_the_id:
  "analyzeSalesData (Some data_ids) (Some reference_options) = Inr rows_ids
   \<and> map row_seller_id rows_ids = [''7'', []]
   \<and> map s_id [seller_seven, seller_zero] = [Number (Fin 7), Number (Fin 0)]
   \<and> set (map (\<lambda>r. Str (row_seller_id r)) rows_ids) \<noteq> set (map s_id [seller_seven, seller_zero])
   \<and> set (map row_seller_id rows_ids) \<noteq> set (map (\<lambda>s. to_string (s_id s)) [seller_seven, seller_zero])"
proof -
  have "analyzeSalesData (Some data_ids) (Some reference_options) = Inr rows_ids"
    by code_simp
  moreover have "map (\<lambda>s. to_string (s_id s)) [seller_seven, seller_zero] = [''7'', ''0'']"
    by code_simp
  ultimately show ?thesis
    by (auto simp: rows_ids_def seller_seven_def seller_zero_def doubleton_eq_iff)
qed

text \<open>
  Claim C9, amended: for every valid input on which \<open>analyzeSalesData\<close> returns, the
  output has as many rows as there are input sellers, and the \<open>seller_id\<close> values of the
  output are, each as often as it occurs, \<open>String(id || '')\<close> of the \<open>id\<close> values of the
  input sellers: the \<open>id\<close> itself when it is a string, its string when it is another
  truthy value, and the empty string when it is 0, NaN, null, false or absent. When every
  \<open>id\<close> is a string, the set of the \<open>seller_id\<close> values of the output is the set of the
  \<open>id\<close> values of the input sellers.
\<close>

theorem output_sellers:
  assumes "analyzeSalesData data opts = Inr rows" and "data = Some d"
  shows "\<exists>ss. elements (sellers d) = map Some ss
           \<and> length rows = length ss
           \<and> mset (map row_seller_id rows) = mset (map (\<lambda>s. string_or_empty (s_id s)) ss)
           \<and> ((\<forall>s\<in>set ss. \<exists>k. s_id s = Str k) \<longrightarrow>
                set (map (\<lambda>r. Str (row_seller_id r)) rows) = set (map s_id ss))"
proof -
  obtain ranked where r: "ranked_sellerStats data opts = Inr ranked"
    and rows: "map format_row ranked = map Inr rows"
    using assms(1) analyzeSalesData_Inr by blast
  from r obtain ss ps rs calcRevenue calcBonus stats where
    v: "validate data = Some (map Some ss, map Some ps, rs)" and
    agg: "aggregate calcRevenue ss ps rs = Inr stats" and
    ranked: "ranked = assign_bonus calcBonus (array_sort by_profit stats)"
    by (rule ranked_sellerStats_Inr)
  have ss: "elements (sellers d) = map Some ss"
    using v assms(2) by (simp add: validate_def split: if_splits)
  have "map row_seller_id rows = map (\<lambda>s. string_or_empty (st_id s)) ranked"
  proof (rule nth_equalityI)
    show "length (map row_seller_id rows) = length (map (\<lambda>s. string_or_empty (st_id s)) ranked)"
      using formatted_nth(1) [OF rows] by simp
  next
    fix i
    assume "i < length (map row_seller_id rows)"
    then have i: "i < length rows" by simp
    then show "map row_seller_id rows ! i = map (\<lambda>s. string_or_empty (st_id s)) ranked ! i"
      using format_row_Inr(1) [OF formatted_nth(2) [OF rows i]] formatted_nth(1) [OF rows]
      by simp
  qed
  also have "\<dots> = map string_or_empty (map st_id ranked)"
    by simp
  also have "map st_id ranked = map st_id (array_sort by_profit stats)"
    by (simp add: ranked assign_bonus_ids)
  finally have ids: "map row_seller_id rows = map string_or_empty (map st_id (array_sort by_profit stats))" .
  have "mset (map st_id (array_sort by_profit stats)) = mset (map st_id stats)"
    by (simp add: mset_array_sort)
  then have "mset (map st_id (array_sort by_profit stats)) = mset (map s_id ss)"
    using aggregate_ids [OF agg] by simp
  then have "mset (map string_or_empty (map st_id (array_sort by_profit stats)))
             = mset (map string_or_empty (map s_id ss))"
    by (metis mset_map)
  then have m: "mset (map row_seller_id rows) = mset (map (\<lambda>s. string_or_empty (s_id s)) ss)"
    using ids by (simp add: comp_def)
  have len: "length rows = length ss"
    using arg_cong [OF m, of size] by simp
  have strings: "set (map (\<lambda>r. Str (row_seller_id r)) rows) = set (map s_id ss)"
    if all: "\<forall>s\<in>set ss. \<exists>k. s_id s = Str k"
  proof -
    have same: "Str (string_or_empty (s_id s)) = s_id s" if "s \<in> set ss" for s
      using all that by (auto simp: string_or_empty_def)
    have "set (map row_seller_id rows) = set (map (\<lambda>s. string_or_empty (s_id s)) ss)"
      using m by (metis set_mset_mset)
    then have "Str ` set (map row_seller_id rows) = Str ` set (map (\<lambda>s. string_or_empty (s_id s)) ss)"
      by simp
    also have "\<dots> = (\<lambda>s. Str (string_or_empty (s_id s))) ` set ss"
      by (simp add: image_image)
    also have "\<dots> = s_id ` set ss"
      using same by (rule image_cong [OF refl])
    finally show ?thesis by (simp add: image_image)
  qed
  from ss len m strings show ?thesis by blast
qed

theorem output_sellers_witness:
  "analyzeSalesData (Some data_2) (Some reference_options) = Inr rows_2
   \<and> length rows_2 = length [seller_1, seller_2]
   \<and> mset (map row_seller_id rows_2) = mset (map (\<lambda>s. string_or_empty (s_id s)) [seller_1, seller_2])
   \<and> set (map (\<lambda>r. Str (row_seller_id r)) rows_2) = set (map s_id [seller_1, seller_2])"
proof -
  from output_sellers [OF rows_2_eval refl] obtain ss where
    ss: "elements (sellers data_2) = map Some ss"
    and len: "length rows_2 = length ss"
    and m: "mset (map row_seller_id rows_2) = mset (map (\<lambda>s. string_or_empty (s_id s)) ss)"
    and strings: "(\<forall>s\<in>set ss. \<exists>k. s_id s = Str k) \<longrightarrow>
                set (map (\<lambda>r. Str (row_seller_id r)) rows_2) = set (map s_id ss)"
    by blast
  have "map Some ss = map Some [seller_1, seller_2]"
    using ss by (simp add: data_2_def)
  then have eq: "ss = [seller_1, seller_2]"
    by (simp only: inj_map_eq_map [OF inj_Some])
  have "\<forall>s\<in>set ss. \<exists>k. s_id s = Str k"
    by (simp add: eq seller_1_def seller_2_def)
  with strings len m eq rows_2_eval show ?thesis by simp
qed

section \<open>The order of the output\<close>

lemma map_id_assign_bonus: "map st_profit (assign_bonus cb stats) = map st_profit stats"
  unfolding assign_bonus_def by (rule map_enumerate_field) simp

lemma sorted_array_sort:
  assumes "\<forall>y\<in>set xs. key y \<noteq> NaN"
  shows "sorted_wrt (\<lambda>a b. js_ge (key a) (key b)) (array_sort (\<lambda>a b. js_sub (key b) (key a)) xs)"
  using assms
proof (induction xs)
  case Nil
  then show ?case by (simp add: array_sort_Nil)
next
  case (Cons x xs)
  then show ?case
    by (simp add: array_sort_Cons sorted_insert_by set_array_sort)
qed

lemma row_profit_format:
  "format_row s = Inr r \<Longrightarrow> st_profit s \<noteq> NaN \<Longrightarrow> row_profit r = toFixed2 (st_profit s)"
  by (simp add: format_row_Inr(4) isNaN_def)

text \<open>
  Claim C6 says that the output is sorted by descending profit for every valid input. A
  profit that is NaN compares as equal to every other profit in the sort and is written
  as 0 in the output: after a seller with a loss of 5 comes a seller whose profit is NaN,
  and the output profits are -5 and 0.
\<close>

theorem output_not_descending:
  "analyzeSalesData (Some data_nan) (Some reference_options) = Inr rows_nan
   \<and> row_profit (rows_nan ! 0) = Fin (- 5) \<and> row_profit (rows_nan ! 1) = Fin 0
   \<and> \<not> js_ge (row_profit (rows_nan ! 0)) (row_profit (rows_nan ! 1))"
proof -
  have "analyzeSalesData (Some data_nan) (Some reference_options) = Inr rows_nan"
    by code_simp
  then show ?thesis by (simp add: rows_nan_def)
qed

text \<open>
  Claim C6, amended: for every valid input for which no seller's accumulated profit is
  NaN, the output is sorted by descending profit: for every adjacent pair of output rows
  \<open>(i, i+1)\<close>, \<open>profit[i] >= profit[i+1]\<close>; and the formatter preserves the rank order
  established by the sort.
\<close>

theorem output_descending_profit:
  assumes "ranked_sellerStats data opts = Inr sellerStats"
    and "\<forall>s\<in>set sellerStats. st_profit s \<noteq> NaN"
    and "analyzeSalesData data opts = Inr rows"
  shows "(\<forall>i. i + 1 < length rows \<longrightarrow> js_ge (row_profit (rows ! i)) (row_profit (rows ! (i + 1))))
         \<and> sorted_wrt (\<lambda>a b. js_ge (st_profit a) (st_profit b)) sellerStats
         \<and> map row_seller_id rows = map (\<lambda>s. string_or_empty (st_id s)) sellerStats
         \<and> map row_name rows = map st_name sellerStats"
proof -
  have rows: "map format_row sellerStats = map Inr rows"
    using assms(1,3) analyzeSalesData_Inr [of data opts rows] by auto
  note len = formatted_nth(1) [OF rows]
  note nth = formatted_nth(2) [OF rows]
  obtain calcBonus stats where ranked: "sellerStats = assign_bonus calcBonus (array_sort by_profit stats)"
    using assms(1) by (rule ranked_sellerStats_Inr)
  have profits: "map st_profit sellerStats = map st_profit (array_sort by_profit stats)"
    using ranked by (simp add: map_id_assign_bonus)
  have "set (map st_profit (array_sort by_profit stats)) = set (map st_profit sellerStats)"
    using profits by simp
  then have "st_profit ` set stats = st_profit ` set sellerStats"
    by (simp add: set_array_sort)
  then have nonan: "\<forall>y\<in>set stats. st_profit y \<noteq> NaN"
    using assms(2) by (metis imageE imageI)
  have by_profit: "by_profit = (\<lambda>a b. js_sub (st_profit b) (st_profit a))"
    by (auto simp: by_profit_def fun_eq_iff)
  have "sorted_wrt (\<lambda>a b. js_ge (st_profit a) (st_profit b)) (array_sort by_profit stats)"
    unfolding by_profit using nonan by (rule sorted_array_sort)
  then have "sorted_wrt js_ge (map st_profit (array_sort by_profit stats))"
    by (simp add: sorted_wrt_map)
  then have "sorted_wrt js_ge (map st_profit sellerStats)"
    using profits by simp
  then have sorted_stats: "sorted_wrt (\<lambda>a b. js_ge (st_profit a) (st_profit b)) sellerStats"
    by (simp add: sorted_wrt_map)
  have adjacent: "js_ge (row_profit (rows ! i)) (row_profit (rows ! (i + 1)))"
    if i: "i + 1 < length rows" for i
  proof -
    have "js_ge (st_profit (sellerStats ! i)) (st_profit (sellerStats ! (i + 1)))"
      using sorted_stats i len by (simp add: sorted_wrt_iff_nth_less)
    then have "js_ge (toFixed2 (st_profit (sellerStats ! i))) (toFixed2 (st_profit (sellerStats ! (i + 1))))"
      by (rule toFixed2_mono)
    moreover have "row_profit (rows ! i) = toFixed2 (st_profit (sellerStats ! i))"
      using nth [of i] i len assms(2) by (intro row_profit_format) auto
    moreover have "row_profit (rows ! (i + 1)) = toFixed2 (st_profit (sellerStats ! (i + 1)))"
      using nth [of "i + 1"] i len assms(2) by (intro row_profit_format) auto
    ultimately show ?thesis by simp
  qed
  have ids: "map row_seller_id rows = map (\<lambda>s. string_or_empty (st_id s)) sellerStats"
    by (rule nth_equalityI) (simp_all add: len format_row_Inr(1) [OF nth])
  have names: "map row_name rows = map st_name sellerStats"
    by (rule nth_equalityI) (simp_all add: len format_row_Inr(2) [OF nth])
  from adjacent sorted_stats ids names show ?thesis by blast
qed

theorem output_descending_profit_witness:
  "analyzeSalesData (Some data_2) (Some reference_options) = Inr rows_2
   \<and> js_ge (row_profit (rows_2 ! 0)) (row_profit (rows_2 ! 1))
   \<and> map row_seller_id rows_2 = map (\<lambda>s. string_or_empty (st_id s)) ranked_2"
proof -
  have nonan: "\<forall>s\<in>set ranked_2. st_profit s \<noteq> NaN"
    by (simp add: ranked_2_def)
  note sorted = output_descending_profit [OF ranked_2_eval nonan rows_2_eval]
  have "0 + 1 < length rows_2" by (simp add: rows_2_def)
  with sorted have "js_ge (row_profit (rows_2 ! 0)) (row_profit (rows_2 ! (0 + 1)))"
    by blast
  with sorted rows_2_eval show ?thesis by simp
qed

section \<open>The numeric fields of the output\<close>

lemma normalised_toFixed2: "normalised acc (if isNaN acc then Fin 0 else toFixed2 acc)"
proof (cases acc)
  case (Fin x)
  show ?thesis
  proof (cases "\<bar>x\<bar> < 10 ^ 21")
    case True
    obtain n :: int where n: "round2 x = real_of_int n / 100"
      using round2_hundredth by blast
    have "\<bar>real_of_int n / 100 - x\<bar> \<le> 1 / 200"
      using round2_close [of x] n by simp
    with n True Fin show ?thesis
      by (auto simp: normalised_def two_decimals_def isNaN_def)
  next
    case False
    with Fin show ?thesis
      by (auto simp: normalised_def two_decimals_def isNaN_def)
  qed
qed (auto simp: normalised_def isNaN_def)

lemma normalised_fixed2:
  assumes "fixed2 v = Inr out"
  shows "normalised_value v out"
proof (cases v)
  case (Number x)
  with assms have "out = (if isNaN x then Fin 0 else toFixed2 x)"
    by (auto simp: fixed2_def isNaN_def split: if_splits)
  with Number normalised_toFixed2 [of x] show ?thesis
    by (simp add: normalised_value_def)
qed (use assms in \<open>auto simp: fixed2_def normalised_value_def split: if_splits\<close>)

text \<open>
  Claim C8 says that revenue, profit and bonus are always finite numbers in the output.
  An infinite accumulated value is not NaN, \<open>toFixed\<close> writes it as \<open>Infinity\<close> and the
  unary plus reads that back: a purchase with an infinite total amount gives an infinite
  revenue in the output.
\<close>

theorem revenue_not_finite:
  "analyzeSalesData (Some data_inf) (Some reference_options) = Inr rows_inf
   \<and> row_revenue (rows_inf ! 0) = PInf \<and> \<not> js_finite (row_revenue (rows_inf ! 0))"
proof -
  have "analyzeSalesData (Some data_inf) (Some reference_options) = Inr rows_inf"
    by code_simp
  then show ?thesis by (simp add: rows_inf_def)
qed

text \<open>
  Claim C8, amended: in every output row, each of the revenue, profit and bonus fields is
  0 if the accumulated value is NaN; is the accumulated value rounded to 2 decimal places
  if that value is finite and of magnitude below \<open>10^21\<close>; and is the accumulated value
  itself if it is infinite or of magnitude at least \<open>10^21\<close>. These three fields are
  never NaN in the output. An accumulated revenue that is a string, which \<open>isNaN\<close> takes
  for NaN when the call returns, gives 0 as NaN does.
\<close>

theorem formatted_fields:
  assumes "analyzeSalesData data opts = Inr rows"
  shows "\<exists>sellerStats. ranked_sellerStats data opts = Inr sellerStats
           \<and> length rows = length sellerStats
           \<and> (\<forall>i<length rows.
                 normalised_value (st_revenue (sellerStats ! i)) (row_revenue (rows ! i))
                 \<and> normalised (st_profit (sellerStats ! i)) (row_profit (rows ! i))
                 \<and> normalised (st_bonus (sellerStats ! i)) (row_bonus (rows ! i)))"
proof -
  obtain sellerStats where r: "ranked_sellerStats data opts = Inr sellerStats"
    and rows: "map format_row sellerStats = map Inr rows"
    using assms analyzeSalesData_Inr by blast
  have "normalised_value (st_revenue (sellerStats ! i)) (row_revenue (rows ! i))
        \<and> normalised (st_profit (sellerStats ! i)) (row_profit (rows ! i))
        \<and> normalised (st_bonus (sellerStats ! i)) (row_bonus (rows ! i))" if "i < length rows" for i
    using format_row_Inr(3,4,5) [OF formatted_nth(2) [OF rows that]]
      normalised_toFixed2 normalised_fixed2
    by simp
  with r formatted_nth(1) [OF rows] show ?thesis by blast
qed

theorem formatted_fields_witness:
  "analyzeSalesData (Some data_2) (Some reference_options) = Inr rows_2
   \<and> normalised_value (st_revenue (ranked_2 ! 0)) (row_revenue (rows_2 ! 0))
   \<and> normalised (st_profit (ranked_2 ! 0)) (row_profit (rows_2 ! 0))
   \<and> normalised (st_bonus (ranked_2 ! 0)) (row_bonus (rows_2 ! 0))"
proof -
  have "0 < length rows_2" by (simp add: rows_2_def)
  with formatted_fields [OF rows_2_eval] ranked_2_eval rows_2_eval show ?thesis
    by auto
qed

section \<open>Lookups in the index objects\<close>

lemma map_of_insert_key:
  "k \<notin> fst ` set obj \<Longrightarrow> map_of (insert_key k v obj) = (map_of obj)(k \<mapsto> v)"
proof (induction obj)
  case Nil
  then show ?case by simp
next
  case (Cons e rest)
  obtain k' v' where e: "e = (k', v')" by (cases e)
  with Cons show ?case
    by (auto simp: fun_eq_iff)
qed

lemma map_of_overwrite:
  "k \<in> fst ` set obj \<Longrightarrow>
   map_of (map (\<lambda>(k', v'). if k' = k then (k', v) else (k', v')) obj) = (map_of obj)(k \<mapsto> v)"
proof (induction obj)
  case Nil
  then show ?case by simp
next
  case (Cons e rest)
  obtain k' v' where e: "e = (k', v')" by (cases e)
  show ?case
  proof (cases "k \<in> fst ` set rest")
    case True
    with Cons.IH e show ?thesis by (auto simp: fun_eq_iff)
  next
    case False
    then have "map (\<lambda>(k', v'). if k' = k then (k', v) else (k', v')) rest = rest"
      by (induction rest) auto
    with False Cons.prems e show ?thesis by (auto simp: fun_eq_iff)
  qed
qed

lemma map_of_obj_define: "map_of (obj_define obj k v) = (map_of obj)(k \<mapsto> v)"
  by (simp add: obj_define_def map_of_insert_key map_of_overwrite)

lemma map_of_fold_define:
  "map_of (foldl (\<lambda>obj (k, v). obj_define obj k v) obj es) = map_of obj ++ map_of (rev es)"
proof (induction es arbitrary: obj)
  case Nil
  then show ?case by simp
next
  case (Cons e es)
  obtain k v where e: "e = (k, v)" by (cases e)
  have "map_of (obj_define obj k v) ++ map_of (rev es) = map_of obj ++ ([k \<mapsto> v] ++ map_of (rev es))"
    by (auto simp: map_of_obj_define fun_eq_iff map_add_def split: option.splits)
  with Cons.IH [of "obj_define obj k v"] e show ?case
    by simp
qed

lemma map_of_fromEntries: "map_of (fromEntries es) = map_of (rev es)"
  by (simp add: fromEntries_def map_of_fold_define)

lemma obj_get_Own: "obj_get obj k = Own v \<longleftrightarrow> map_of obj k = Some v"
  by (simp add: obj_get_def split: option.splits)


lemma obj_get_Inherited: "obj_get obj k = Inherited \<longleftrightarrow> map_of obj k = None \<and> k \<in> set proto_keys"
  by (simp add: obj_get_def split: option.splits)

lemma sellerIndex_Own:
  assumes "obj_get (make_sellerIndex stats) k = Own i"
  shows "i < length stats \<and> stat_key (stats ! i) = k"
proof -
  have "map_of (rev (map (\<lambda>(i, seller). (stat_key seller, i)) (enumerate 0 stats))) k = Some i"
    using assms by (simp add: obj_get_Own make_sellerIndex_def map_of_fromEntries)
  then have "(k, i) \<in> set (map (\<lambda>(i, seller). (stat_key seller, i)) (enumerate 0 stats))"
    using map_of_SomeD by fastforce
  then obtain s where "(i, s) \<in> set (enumerate 0 stats)" "stat_key s = k"
    by auto
  then show ?thesis
    by (auto simp: in_set_enumerate_eq)
qed

lemma sellerIndex_None:
  "map_of (make_sellerIndex stats) k = None \<longleftrightarrow> k \<notin> stat_key ` set stats"
proof -
  have "map fst (map (\<lambda>(i, seller). (stat_key seller, i)) (enumerate n stats)) = map stat_key stats" for n
    by (induction stats arbitrary: n) auto
  then have "set (map fst (map (\<lambda>(i, seller). (stat_key seller, i)) (enumerate 0 stats))) = set (map stat_key stats)"
    by simp
  then have "fst ` set (map (\<lambda>(i, seller). (stat_key seller, i)) (enumerate 0 stats)) = stat_key ` set stats"
    by (simp only: set_map)
  then show ?thesis
    by (simp add: make_sellerIndex_def map_of_fromEntries map_of_eq_None_iff)
qed

lemma productIndex_Own:
  assumes "obj_get (make_productIndex ps) k = Own p"
  shows "p \<in> set ps \<and> product_key p = k"
proof -
  have "map_of (rev (map (\<lambda>product. (product_key product, product)) ps)) k = Some p"
    using assms by (simp add: obj_get_Own make_productIndex_def map_of_fromEntries)
  then have "(k, p) \<in> set (map (\<lambda>product. (product_key product, product)) ps)"
    using map_of_SomeD by fastforce
  then show ?thesis by auto
qed


lemma map_of_keyed:
  "map_of (map (\<lambda>x. (f x, x)) xs) k = find (\<lambda>x. f x = k) xs"
  by (induction xs) auto

lemma map_of_keyed_index:
  "map_of (map (\<lambda>(i, x). (f x, i)) ys) k = map_option fst (find (\<lambda>(i, x). f x = k) ys)"
  by (induction ys) auto

lemma enumerate_map_init: "enumerate n (map g xs) = map (\<lambda>(i, x). (i, g x)) (enumerate n xs)"
  by (induction xs arbitrary: n) auto

lemma productIndex_find: "map_of (make_productIndex ps) k = find_product ps k"
  by (simp add: make_productIndex_def map_of_fromEntries find_product_def rev_map map_of_keyed)

lemma sellerIndex_find: "map_of (make_sellerIndex (map init_stat ss)) k = seller_position ss k"
proof -
  have "map (\<lambda>(i, seller). (stat_key seller, i)) (enumerate 0 (map init_stat ss))
        = map (\<lambda>(i, s). (seller_key s, i)) (enumerate 0 ss)"
    by (simp add: enumerate_map_init comp_def case_prod_beta init_stat_def stat_key_def seller_key_def)
  then show ?thesis
    by (simp add: make_sellerIndex_def map_of_fromEntries seller_position_def rev_map
        map_of_keyed_index)
qed

lemma seller_position_less: "seller_position ss k = Some i \<Longrightarrow> i < length ss"
  using sellerIndex_Own [of "map init_stat ss" k i]
  by (simp add: obj_get_Own sellerIndex_find)

lemma init_stat_ids: "stat_key ` init_stat ` set ss = seller_key ` set ss"
  by (force simp: init_stat_def stat_key_def seller_key_def)

lemma seller_position_None: "seller_position ss k = None \<longleftrightarrow> k \<notin> seller_key ` set ss"
  using sellerIndex_None [of "map init_stat ss" k]
  by (simp add: sellerIndex_find init_stat_ids)

section \<open>The realm that nothing has written to\<close>

lemma added_pristine: "added pristine k = None"
  by (simp add: added_def pristine_def)

lemma text_added_pristine: "\<not> text_added pristine k"
  by (simp add: text_added_def added_pristine)

lemma read_counter_pristine: "read_counter pristine sold k = obj_get sold k"
  by (simp add: read_counter_def added_pristine split: lookup.splits)


lemma objects_map_Some: "objects (map Some xs) = xs"
  by (induction xs) auto

lemma itemized_items: "itemized r \<Longrightarrow> items r = Some (map Some (items_of r))"
proof -
  assume a: "itemized r"
  then obtain its where its: "items r = Some its" "list_all (\<lambda>it. it \<noteq> None) its"
    by (auto simp: itemized_def split: option.splits)
  have "its = map Some (objects its)"
    using its(2)
  proof (induction its)
    case Nil
    then show ?case by simp
  next
    case (Cons it its)
    then show ?case by (cases it) auto
  qed
  with its(1) show ?thesis by (simp add: items_of_def)
qed

section \<open>Referential gaps\<close>

lemma apply_record_Absent:
  "obj_get sidx (record_key r) = Absent \<Longrightarrow> apply_record cr pidx sidx pristine stats r = Inr stats"
  by (simp add: apply_record_def text_added_pristine)


lemma apply_item_Absent:
  "obj_get pidx (item_key it) = Absent \<Longrightarrow> apply_item cr pidx pristine s it = s"
  by (simp add: apply_item_def Let_def text_added_pristine)














lemma records_gaps_items: "\<forall>r\<in>set records_gaps. itemized r"
  by (simp add: records_gaps_def record_1_def record_stranger_def record_mixed_def itemized_def)


lemma records_gaps_sellers:
  "\<forall>r\<in>set records_gaps. record_key r \<in> set proto_keys \<longrightarrow> record_key r \<in> seller_key ` set [seller_1]"
  by (simp add: records_gaps_def record_1_def record_stranger_def record_mixed_def proto_keys_def
      record_key_def)

lemma records_gaps_skus:
  "\<forall>r\<in>set records_gaps. \<forall>it\<in>set (items_of r). item_key it \<notin> set proto_keys"
  by (simp add: records_gaps_def record_1_def record_stranger_def record_mixed_def proto_keys_def
      items_of_def item_1_def item_unknown_def item_key_def)


section \<open>The totals of a seller\<close>

lemma set_insert_key: "set (insert_key k v obj) = insert (k, v) (set obj)"
  by (induction k v obj rule: insert_key.induct) (auto split: if_splits)

lemma in_keys_insert_key: "fst ` set (insert_key k v obj) = insert k (fst ` set obj)"
  by (simp add: set_insert_key)

lemma overwrite_absent:
  "k \<notin> fst ` set obj \<Longrightarrow> map (\<lambda>(k', v'). if k' = k then (k', b) else (k', v')) obj = obj"
  by (induction obj) auto

lemma overwrite_insert_key:
  "k \<notin> fst ` set obj \<Longrightarrow>
   map (\<lambda>(k', v'). if k' = k then (k', b) else (k', v')) (insert_key k a obj) = insert_key k b obj"
proof (induction obj)
  case Nil
  then show ?case by simp
next
  case (Cons e rest)
  obtain k' v' where e: "e = (k', v')" by (cases e)
  from Cons.prems e have k: "k' \<noteq> k" "k \<notin> fst ` set rest" by auto
  show ?case
  proof (cases "is_array_index k \<and> (\<not> is_array_index k' \<or> int_of_digits k < int_of_digits k')")
    case True
    with e k overwrite_absent [OF k(2), of b] show ?thesis by simp
  next
    case False
    with e k Cons.IH show ?thesis by simp
  qed
qed

lemma obj_define_twice: "obj_define (obj_define obj k a) k b = obj_define obj k b"
proof (cases "k \<in> fst ` set obj")
  case True
  then have "k \<in> fst ` set (map (\<lambda>(k', v'). if k' = k then (k', a) else (k', v')) obj)"
    by force
  with True show ?thesis
    by (auto simp: obj_define_def)
next
  case False
  then show ?thesis
    by (simp add: obj_define_def in_keys_insert_key overwrite_insert_key)
qed

lemma no_text_lookup: "no_text sold \<Longrightarrow> map_of sold k \<noteq> Some Text"
proof
  assume a: "no_text sold" and "map_of sold k = Some Text"
  then have "(k, Text) \<in> set sold" by (rule_tac map_of_SomeD)
  with a show False by (force simp: no_text_def list_all_iff)
qed

lemma values_obj_define: "snd ` set (obj_define obj k v) \<subseteq> insert v (snd ` set obj)"
  by (auto simp: obj_define_def set_insert_key split: if_splits)

lemma no_text_obj_define: "no_text sold \<Longrightarrow> v \<noteq> Text \<Longrightarrow> no_text (obj_define sold k v)"
proof -
  assume a: "no_text sold" "v \<noteq> Text"
  have "Text \<notin> insert v (snd ` set sold)"
    using a by (force simp: no_text_def list_all_iff)
  then have "Text \<notin> snd ` set (obj_define sold k v)"
    using values_obj_define [of sold k v] by blast
  then show ?thesis
    by (force simp: no_text_def list_all_iff)
qed

lemma no_text_add_quantity: "no_text sold \<Longrightarrow> no_text (add_quantity sold e)"
  by (cases e) (simp add: add_quantity_def no_text_obj_define)

lemma count_sold_add_quantity:
  assumes "item_key it \<notin> set proto_keys" and "no_text sold"
  shows "count_sold pristine sold (item_key it) (quantity it) = add_quantity sold (it, p)"
proof -
  let ?k = "item_key it"
  have k: "?k \<noteq> ''__proto__''"
    using assms(1) by (auto simp: proto_keys_def)
  show ?thesis
  proof (cases "map_of sold ?k")
    case None
    then have g: "obj_get sold ?k = Absent"
      using assms(1) by (simp add: obj_get_def)
    have "obj_get (obj_define sold ?k (Num (Fin 0))) ?k = Own (Num (Fin 0))"
      by (simp add: obj_get_def map_of_obj_define)
    with g None k show ?thesis
      by (simp add: count_sold_def read_counter_pristine obj_assign_def add_quantity_def counter_of_def obj_define_twice)
  next
    case (Some v)
    then obtain n where v: "v = Num n"
      using no_text_lookup [OF assms(2), of ?k] by (cases v) auto
    have g: "obj_get sold ?k = Own (Num n)"
      using Some v by (simp add: obj_get_def)
    show ?thesis
    proof (cases "num_truthy n")
      case True
      with g Some v k show ?thesis
        by (simp add: count_sold_def read_counter_pristine obj_assign_def add_quantity_def counter_of_def num_truthy_def)
    next
      case False
      have "obj_get (obj_define sold ?k (Num (Fin 0))) ?k = Own (Num (Fin 0))"
        by (simp add: obj_get_def map_of_obj_define)
      with False g Some v k show ?thesis
        by (auto simp: count_sold_def read_counter_pristine obj_assign_def add_quantity_def counter_of_def
            num_truthy_def obj_define_twice)
    qed
  qed
qed

lemma sold_in_Nil: "sold_in ps [] = []"
  by (simp add: sold_in_def map_filter_simps)

lemma sold_in_Cons:
  "sold_in ps (it # its) = (case find_product ps (item_key it) of
      None \<Rightarrow> sold_in ps its | Some p \<Rightarrow> (it, p) # sold_in ps its)"
  by (simp add: sold_in_def map_filter_simps split: option.splits)

lemma no_text_foldl_add_quantity: "no_text sold \<Longrightarrow> no_text (foldl add_quantity sold es)"
  by (induction es arbitrary: sold) (auto simp: no_text_add_quantity)

lemma foldl_apply_item_sold:
  assumes "\<forall>it\<in>set its. item_key it \<notin> set proto_keys" and "no_text (products_sold s)"
  shows "foldl (apply_item cr (make_productIndex ps) pristine) s its
         = s\<lparr> st_profit := foldl js_add (st_profit s) (map (item_profit cr) (sold_in ps its)),
              products_sold := foldl add_quantity (products_sold s) (sold_in ps its) \<rparr>"
  using assms
proof (induction its arbitrary: s)
  case Nil
  then show ?case by (simp add: sold_in_Nil)
next
  case (Cons it its)
  have k: "item_key it \<notin> set proto_keys" using Cons.prems by simp
  show ?case
  proof (cases "find_product ps (item_key it)")
    case None
    then have "obj_get (make_productIndex ps) (item_key it) = Absent"
      using k by (simp add: obj_get_def productIndex_find)
    then have "apply_item cr (make_productIndex ps) pristine s it = s"
      by (rule apply_item_Absent)
    with None Cons show ?thesis by (simp add: sold_in_Cons)
  next
    case (Some p)
    then have g: "obj_get (make_productIndex ps) (item_key it) = Own p"
      by (simp add: obj_get_def productIndex_find)
    let ?s1 = "s\<lparr> st_profit := js_add (st_profit s) (item_profit cr (it, p)),
                   products_sold := add_quantity (products_sold s) (it, p) \<rparr>"
    have step: "apply_item cr (make_productIndex ps) pristine s it = ?s1"
      using g count_sold_add_quantity [OF k Cons.prems(2), of p]
      by (simp add: apply_item_def Let_def item_profit_def)
    have nt: "no_text (products_sold ?s1)"
      using Cons.prems(2) by (simp add: no_text_add_quantity)
    have "foldl (apply_item cr (make_productIndex ps) pristine) ?s1 its
          = ?s1\<lparr> st_profit := foldl js_add (st_profit ?s1) (map (item_profit cr) (sold_in ps its)),
                  products_sold := foldl add_quantity (products_sold ?s1) (sold_in ps its) \<rparr>"
      using Cons.prems(1) nt by (intro Cons.IH) auto
    with step Some show ?thesis by (simp add: sold_in_Cons)
  qed
qed

lemma accumulate_Nil: "accumulate cr ps s [] = s"
  by (simp add: accumulate_def sold_items_def)

lemma accumulate_append:
  "accumulate cr ps (accumulate cr ps s xs) ys = accumulate cr ps s (xs @ ys)"
  by (simp add: accumulate_def sold_items_def)

lemma no_text_accumulate: "no_text (products_sold s) \<Longrightarrow> no_text (products_sold (accumulate cr ps s mine))"
  by (simp add: accumulate_def no_text_foldl_add_quantity)

lemma apply_record_accumulate:
  assumes "itemized r"
    and "record_key r \<in> set proto_keys \<longrightarrow> record_key r \<in> seller_key ` set ss"
    and "\<forall>it\<in>set (items_of r). item_key it \<notin> set proto_keys"
    and "\<forall>s\<in>set stats. no_text (products_sold s)"
    and "length stats = length ss"
  shows "apply_record cr (make_productIndex ps) (make_sellerIndex (map init_stat ss)) pristine stats r
         = Inr (case seller_position ss (record_key r) of
                  None \<Rightarrow> stats
                | Some j \<Rightarrow> stats[j := accumulate cr ps (stats ! j) [r]])"
proof (cases "seller_position ss (record_key r)")
  case None
  then have "record_key r \<notin> set proto_keys"
    using assms(2) by (simp add: seller_position_None)
  with None have "obj_get (make_sellerIndex (map init_stat ss)) (record_key r) = Absent"
    by (simp add: obj_get_def sellerIndex_find)
  with None show ?thesis by (simp add: apply_record_Absent)
next
  case (Some j)
  then have g: "obj_get (make_sellerIndex (map init_stat ss)) (record_key r) = Own j"
    by (simp add: obj_get_def sellerIndex_find)
  have its: "items r = Some (map Some (items_of r))"
    using assms(1) by (rule itemized_items)
  have j: "j < length stats"
    using Some seller_position_less assms(5) by simp
  let ?s0 = "(stats ! j)\<lparr> st_sales_count := st_sales_count (stats ! j) + 1,
                 st_revenue := plus_value (st_revenue (stats ! j)) (total_amount r) \<rparr>"
  have nt: "no_text (products_sold ?s0)"
    using assms(4) j by simp
  have "foldl (apply_item cr (make_productIndex ps) pristine) ?s0 (items_of r)
        = accumulate cr ps (stats ! j) [r]"
    using foldl_apply_item_sold [OF assms(3) nt, of cr ps]
    by (simp add: accumulate_def sold_items_def)
  with g its Some show ?thesis
    by (simp add: apply_record_def Let_def apply_items_map_Some)
qed

lemma process_records_accumulate:
  assumes "\<forall>r\<in>set rs. itemized r"
    and "\<forall>r\<in>set rs. record_key r \<in> set proto_keys \<longrightarrow> record_key r \<in> seller_key ` set ss"
    and "\<forall>r\<in>set rs. \<forall>it\<in>set (items_of r). item_key it \<notin> set proto_keys"
    and "\<forall>s\<in>set stats. no_text (products_sold s)"
    and "length stats = length ss"
  shows "process_records cr (make_productIndex ps) (make_sellerIndex (map init_stat ss)) pristine stats
           (map Some rs)
         = Inr (map (\<lambda>(i, s). accumulate cr ps s (records_of ss rs i)) (enumerate 0 stats))"
  using assms
proof (induction rs arbitrary: stats)
  case Nil
  have "map (\<lambda>(i, s). s) (enumerate 0 stats) = stats"
    by (simp add: list_eq_iff_nth_eq nth_enumerate_eq)
  then show ?case
    by (simp add: records_of_def accumulate_Nil)
next
  case (Cons r rest)
  let ?stats1 = "case seller_position ss (record_key r) of
                  None \<Rightarrow> stats
                | Some j \<Rightarrow> stats[j := accumulate cr ps (stats ! j) [r]]"
  have step: "apply_record cr (make_productIndex ps) (make_sellerIndex (map init_stat ss)) pristine stats r
              = Inr ?stats1"
    using Cons.prems by (intro apply_record_accumulate) auto
  have len: "length ?stats1 = length ss"
    using Cons.prems(5) by (simp split: option.splits)
  have nt: "\<forall>s\<in>set ?stats1. no_text (products_sold s)"
  proof (cases "seller_position ss (record_key r)")
    case None
    with Cons.prems(4) show ?thesis by simp
  next
    case (Some j)
    have "j < length stats" using Some seller_position_less Cons.prems(5) by simp
    then have "no_text (products_sold (accumulate cr ps (stats ! j) [r]))"
      using Cons.prems(4) by (simp add: no_text_accumulate)
    with Some Cons.prems(4) show ?thesis
      by (auto dest!: set_update_subset_insert [THEN subsetD])
  qed
  have rest: "process_records cr (make_productIndex ps) (make_sellerIndex (map init_stat ss)) pristine ?stats1 (map Some rest)
        = Inr (map (\<lambda>(i, s). accumulate cr ps s (records_of ss rest i)) (enumerate 0 ?stats1))"
    using Cons.prems(1,2,3) nt len by (intro Cons.IH) auto
  have "map (\<lambda>(i, s). accumulate cr ps s (records_of ss rest i)) (enumerate 0 ?stats1)
        = map (\<lambda>(i, s). accumulate cr ps s (records_of ss (r # rest) i)) (enumerate 0 stats)"
  proof (rule nth_equalityI)
    show "length (map (\<lambda>(i, s). accumulate cr ps s (records_of ss rest i)) (enumerate 0 ?stats1))
          = length (map (\<lambda>(i, s). accumulate cr ps s (records_of ss (r # rest) i)) (enumerate 0 stats))"
      using len Cons.prems(5) by simp
  next
    fix i
    assume "i < length (map (\<lambda>(i, s). accumulate cr ps s (records_of ss rest i)) (enumerate 0 ?stats1))"
    then have i: "i < length stats" "i < length ?stats1"
      using len Cons.prems(5) by simp_all
    have "accumulate cr ps (?stats1 ! i) (records_of ss rest i)
          = accumulate cr ps (stats ! i) (records_of ss (r # rest) i)"
    proof (cases "seller_position ss (record_key r)")
      case None
      then show ?thesis by (simp add: records_of_def)
    next
      case (Some j)
      show ?thesis
      proof (cases "i = j")
        case True
        with Some i show ?thesis
          by (simp add: records_of_def accumulate_append)
      next
        case False
        with Some i show ?thesis
          by (simp add: records_of_def)
      qed
    qed
    then show "map (\<lambda>(i, s). accumulate cr ps s (records_of ss rest i)) (enumerate 0 ?stats1) ! i
          = map (\<lambda>(i, s). accumulate cr ps s (records_of ss (r # rest) i)) (enumerate 0 stats) ! i"
      using i by (simp add: nth_enumerate_eq)
  qed
  moreover have "realm_after (make_sellerIndex (map init_stat ss)) pristine r = pristine"
    using Cons.prems(2)
    by (auto simp: realm_after_def obj_get_Inherited sellerIndex_None init_stat_ids)
  ultimately show ?case using step rest by simp
qed

lemma enumerate_map_gen: "enumerate n (map g xs) = map (\<lambda>(i, x). (i, g x)) (enumerate n xs)"
  by (induction xs arbitrary: n) auto

text \<open>
  Claim C3 says that the quantity of a line item is added to a counter that is initialised
  to 0 on the first occurrence of the sku. The code sets the counter to 0 whenever it is
  falsy, so a counter that has become NaN starts again from 0: after the quantities NaN
  and 5 the counter is 5, where the claim gives NaN.
\<close>

theorem counter_reset_after_nan:
  "aggregate calculateSimpleRevenue [seller_1] [product_1] [Some record_nan_qty]
     = Inr [\<lparr> st_id = Str ''seller_1'', st_name = ''Alexey Petrov'', st_revenue = Number (Fin 75),
              st_profit = NaN, st_sales_count = 1,
              products_sold = [(''SKU_001'', Num (Fin 5))] \<rparr>]
   \<and> foldl claimed_add_quantity [] (sold_items [product_1] [record_nan_qty])
     = [(''SKU_001'', Num NaN)]"
proof -
  have "aggregate calculateSimpleRevenue [seller_1] [product_1] [Some record_nan_qty]
     = Inr [\<lparr> st_id = Str ''seller_1'', st_name = ''Alexey Petrov'', st_revenue = Number (Fin 75),
              st_profit = NaN, st_sales_count = 1,
              products_sold = [(''SKU_001'', Num (Fin 5))] \<rparr>]"
    by code_simp
  moreover have "foldl claimed_add_quantity [] (sold_items [product_1] [record_nan_qty])
     = [(''SKU_001'', Num NaN)]"
    by code_simp
  ultimately show ?thesis by blast
qed

text \<open>
  Claim C3, amended: when every seller, product and purchase record is an object, every
  purchase record has an \<open>items\<close> array of objects, and no \<open>seller_id\<close> that matches no
  seller and no \<open>sku\<close> of a line item is the name of a property inherited from
  \<open>Object.prototype\<close>, then for every purchase record
  whose \<open>seller_id\<close> matches a seller the aggregation increments that seller's
  \<open>sales_count\<close> by exactly 1 and adds the record's \<open>total_amount\<close> to that seller's
  revenue with \<open>+=\<close> (a sum of numbers; a concatenation once a total amount is a
  string); and for every line item of the record whose \<open>sku\<close> matches a product it adds
  \<open>calculateRevenue(item, product) - product.purchase_price * item.quantity\<close> to the
  seller's running profit and adds \<open>item.quantity\<close> to the seller's counter of that sku,
  which counts from 0 when the sku has no counter yet or its counter is 0 or NaN; records
  and items are processed in input order. Identifiers match as property keys, by their
  strings.
\<close>

theorem aggregation_totals:
  assumes "\<forall>r\<in>set rs. itemized r"
    and "\<forall>r\<in>set rs. record_key r \<in> set proto_keys \<longrightarrow> record_key r \<in> seller_key ` set ss"
    and "\<forall>r\<in>set rs. \<forall>it\<in>set (items_of r). item_key it \<notin> set proto_keys"
  shows "aggregate calcRevenue ss ps (map Some rs)
         = Inr (map (\<lambda>(i, seller). accumulate calcRevenue ps (init_stat seller) (records_of ss rs i))
                  (enumerate 0 ss))"
proof -
  have nt: "\<forall>s\<in>set (map init_stat ss). no_text (products_sold s)"
    by (simp add: init_stat_def no_text_def)
  have "aggregate calcRevenue ss ps (map Some rs)
        = Inr (map (\<lambda>(i, s). accumulate calcRevenue ps s (records_of ss rs i))
                 (enumerate 0 (map init_stat ss)))"
    unfolding aggregate_def Let_def
    using assms nt by (intro process_records_accumulate) auto
  then show ?thesis
    by (simp add: enumerate_map_gen comp_def case_prod_beta)
qed

theorem aggregation_totals_witness:
  "aggregate calculateSimpleRevenue [seller_1] [product_1] (map Some records_gaps)
     = Inr (map (\<lambda>(i, seller). accumulate calculateSimpleRevenue [product_1] (init_stat seller)
                   (records_of [seller_1] records_gaps i))
              (enumerate 0 [seller_1]))
   \<and> aggregate calculateSimpleRevenue [seller_1] [product_1] (map Some records_gaps) = Inr [stat_gaps]"
proof -
  have "aggregate calculateSimpleRevenue [seller_1] [product_1] (map Some records_gaps) = Inr [stat_gaps]"
    by code_simp
  with aggregation_totals [OF records_gaps_items records_gaps_sellers records_gaps_skus,
      of calculateSimpleRevenue "[product_1]"]
  show ?thesis by simp
qed

section \<open>The top products\<close>

lemma first_occurrences_snoc:
  "first_occurrences (xs @ [k]) = (if k \<in> set xs then first_occurrences xs else first_occurrences xs @ [k])"
  by (simp add: first_occurrences_def)

lemma set_first_occurrences: "set (first_occurrences xs) = set xs"
  by (simp add: first_occurrences_def)

lemma insert_key_append: "\<not> is_array_index k \<Longrightarrow> insert_key k v obj = obj @ [(k, v)]"
  by (induction obj) auto

lemma keys_overwrite:
  "map fst (map (\<lambda>(k', v'). if k' = k then (k', b) else (k', v')) obj) = map fst obj"
  by (induction obj) auto

lemma keys_obj_define:
  assumes "\<not> is_array_index k"
  shows "map fst (obj_define obj k v) = (if k \<in> set (map fst obj) then map fst obj else map fst obj @ [k])"
proof (cases "k \<in> fst ` set obj")
  case True
  then have "obj_define obj k v = map (\<lambda>(k', v'). if k' = k then (k', v) else (k', v')) obj"
    by (simp add: obj_define_def)
  with True show ?thesis by (simp only: keys_overwrite) simp
next
  case False
  then have "obj_define obj k v = obj @ [(k, v)]"
    using assms by (simp add: obj_define_def insert_key_append)
  with False show ?thesis by simp
qed

lemma keys_add_quantity:
  "\<not> is_array_index (item_key it) \<Longrightarrow>
   map fst (add_quantity sold (it, p))
   = (if item_key it \<in> set (map fst sold) then map fst sold else map fst sold @ [item_key it])"
  using keys_obj_define [of "item_key it" sold] by (simp add: add_quantity_def)

lemma keys_foldl_add_quantity:
  assumes "\<forall>e\<in>set es. \<not> is_array_index (item_key (fst e))"
  shows "map fst (foldl add_quantity [] es) = first_occurrences (map (\<lambda>e. item_key (fst e)) es)"
  using assms
proof (induction es rule: rev_induct)
  case Nil
  then show ?case by (simp add: first_occurrences_def)
next
  case (snoc e es)
  obtain it p where e: "e = (it, p)" by (cases e)
  have k: "\<not> is_array_index (item_key it)" using snoc.prems e by simp
  let ?sold = "foldl add_quantity [] es"
  let ?skus = "map (\<lambda>e. item_key (fst e)) es"
  have IH: "map fst ?sold = first_occurrences ?skus"
    using snoc by simp
  then have mem: "item_key it \<in> set (map fst ?sold) \<longleftrightarrow> item_key it \<in> set ?skus"
    by (simp only: set_first_occurrences)
  have "map fst (foldl add_quantity [] (es @ [e])) = map fst (add_quantity ?sold (it, p))"
    using e by simp
  also have "\<dots> = (if item_key it \<in> set ?skus then first_occurrences ?skus
                    else first_occurrences ?skus @ [item_key it])"
    using keys_add_quantity [OF k, of ?sold p] mem IH by simp
  also have "\<dots> = first_occurrences (?skus @ [item_key it])"
    by (simp only: first_occurrences_snoc)
  finally show ?case using e by simp
qed

lemma filter_insert_by_other:
  "\<not> P x \<Longrightarrow> filter P (insert_by cmp x ys) = filter P ys"
  by (induction ys) auto

lemma js_sub_self_not_positive: "\<not> js_positive (js_sub q q)"
  by (cases q) (auto simp: js_sub_def)

lemma filter_insert_by_same:
  "key x = q \<Longrightarrow>
   filter (\<lambda>e. key e = q) (insert_by (\<lambda>a b. js_sub (key b) (key a)) x ys)
   = x # filter (\<lambda>e. key e = q) ys"
proof (induction ys)
  case Nil
  then show ?case by simp
next
  case (Cons y ys)
  show ?case
  proof (cases "js_positive (js_sub (key y) (key x))")
    case True
    then have "key y \<noteq> q"
      using Cons.prems js_sub_self_not_positive [of q] by auto
    with True Cons show ?thesis by simp
  next
    case False
    with Cons.prems show ?thesis by simp
  qed
qed

lemma array_sort_stable:
  "filter (\<lambda>e. key e = q) (array_sort (\<lambda>a b. js_sub (key b) (key a)) xs) = filter (\<lambda>e. key e = q) xs"
proof (induction xs)
  case Nil
  then show ?case by (simp add: array_sort_Nil)
next
  case (Cons x xs)
  then show ?case
    by (cases "key x = q") (simp_all add: array_sort_Cons filter_insert_by_same filter_insert_by_other)
qed

lemma by_quantity_key: "by_quantity = (\<lambda>a b. js_sub (to_number (snd b)) (to_number (snd a)))"
  by (simp add: by_quantity_def fun_eq_iff)

lemma length_top_products_of: "length (top_products_of sold) \<le> 10"
  by (simp add: top_products_of_def)

lemma sorted_wrt_take: "sorted_wrt R xs \<Longrightarrow> sorted_wrt R (take n xs)"
  by (metis append_take_drop_id sorted_wrt_append)

lemma sorted_top_products_of:
  assumes "numeric_counters sold"
  shows "sorted_wrt (\<lambda>a b. js_ge (to_number (snd a)) (to_number (snd b))) (top_products_of sold)"
proof -
  have "\<forall>y\<in>set sold. to_number (snd y) \<noteq> NaN"
    using assms by (simp add: numeric_counters_def list_all_iff)
  then have "sorted_wrt (\<lambda>a b. js_ge (to_number (snd a)) (to_number (snd b))) (array_sort by_quantity sold)"
    unfolding by_quantity_key by (rule sorted_array_sort)
  then show ?thesis
    unfolding top_products_of_def by (rule sorted_wrt_take)
qed

lemma stable_top_products_of:
  "filter (\<lambda>e. to_number (snd e) = q) (array_sort by_quantity sold)
   = filter (\<lambda>e. to_number (snd e) = q) sold"
  unfolding by_quantity_key by (rule array_sort_stable)

lemma assign_bonus_sold: "map products_sold (assign_bonus cb stats) = map products_sold stats"
  unfolding assign_bonus_def by (rule map_enumerate_field) simp

lemma assign_bonus_top:
  "map st_top_products (assign_bonus cb stats) = map (\<lambda>s. top_products_of (products_sold s)) stats"
  unfolding assign_bonus_def by (rule map_enumerate_field) simp

lemma ranked_top_products:
  assumes "ranked_sellerStats data opts = Inr sellerStats" and "s \<in> set sellerStats"
  shows "st_top_products s = top_products_of (products_sold s)"
proof -
  obtain calcBonus stats where r: "sellerStats = assign_bonus calcBonus (array_sort by_profit stats)"
    using assms(1) by (rule ranked_sellerStats_Inr)
  obtain i where i: "i < length sellerStats" "s = sellerStats ! i"
    using assms(2) by (auto simp: in_set_conv_nth)
  let ?sorted = "array_sort by_profit stats"
  have len: "length sellerStats = length ?sorted"
    using arg_cong [OF assign_bonus_ids [of calcBonus ?sorted], of length] r by simp
  have "st_top_products s = map st_top_products sellerStats ! i" using i by simp
  also have "\<dots> = top_products_of (products_sold (?sorted ! i))"
    using i len by (simp only: r assign_bonus_top) simp
  also have "products_sold (?sorted ! i) = map products_sold sellerStats ! i"
    using i len by (simp only: r assign_bonus_sold) simp
  finally show ?thesis using i by simp
qed

lemma stable_descending_array_sort:
  assumes "numeric_counters sold"
  shows "stable_descending sold (array_sort by_quantity sold)"
proof -
  have "\<forall>y\<in>set sold. to_number (snd y) \<noteq> NaN"
    using assms by (simp add: numeric_counters_def list_all_iff)
  then have "sorted_wrt (\<lambda>a b. js_ge (to_number (snd a)) (to_number (snd b))) (array_sort by_quantity sold)"
    unfolding by_quantity_key by (rule sorted_array_sort)
  then show ?thesis
    by (simp add: stable_descending_def mset_array_sort stable_top_products_of)
qed

lemma sold_in_subset: "e \<in> set (sold_in ps its) \<Longrightarrow> fst e \<in> set its"
  by (induction its) (auto simp: sold_in_Nil sold_in_Cons split: option.splits)

lemma sold_items_subset:
  assumes "e \<in> set (sold_items ps mine)"
  shows "\<exists>r\<in>set mine. fst e \<in> set (items_of r)"
proof -
  obtain r where r: "r \<in> set mine" "e \<in> set (sold_in ps (items_of r))"
    using assms by (auto simp: sold_items_def)
  then have "fst e \<in> set (items_of r)"
    by (simp add: sold_in_subset)
  with r show ?thesis by blast
qed

lemma accumulate_id: "st_id (accumulate cr ps s mine) = st_id s"
  by (simp add: accumulate_def)

lemma accumulate_sold:
  "products_sold (accumulate cr ps (init_stat seller) mine) = foldl add_quantity [] (sold_items ps mine)"
  by (simp add: accumulate_def init_stat_def)

lemma nth_assign_bonus:
  assumes "i < length stats"
  shows "st_id (assign_bonus cb stats ! i) = st_id (stats ! i)"
    and "products_sold (assign_bonus cb stats ! i) = products_sold (stats ! i)"
    and "st_top_products (assign_bonus cb stats ! i) = top_products_of (products_sold (stats ! i))"
  using assms by (simp_all add: assign_bonus_def nth_enumerate_eq)

text \<open>
  Claim C7 says that entries of equal quantity appear in the order in which the skus were
  first accumulated for the seller. The entries are enumerated as \<open>Object.entries\<close> gives
  them, array indices first in ascending order: for the skus 2 and 1, sold in this order
  with equal quantities, the top products list 1 before 2.
\<close>

theorem tie_order_of_index_skus:
  "analyzeSalesData (Some data_n) (Some reference_options) = Inr rows_n
   \<and> map fst (row_top_products (rows_n ! 0)) = [''1'', ''2'']
   \<and> first_occurrences (map (\<lambda>e. item_key (fst e)) (sold_items [product_n1, product_n2] [record_n]))
      = [''2'', ''1'']"
proof -
  have "analyzeSalesData (Some data_n) (Some reference_options) = Inr rows_n"
    by code_simp
  moreover have "first_occurrences (map (\<lambda>e. item_key (fst e)) (sold_items [product_n1, product_n2] [record_n]))
      = [''2'', ''1'']"
    by code_simp
  ultimately show ?thesis by (simp add: rows_n_def)
qed

text \<open>
  Claim C7, amended: for every seller in the output, \<open>top_products\<close> has at most 10
  entries. When every counter of the seller is a number other than NaN, \<open>top_products\<close>
  holds the first 10 entries of the counters sorted by descending quantity, entries of
  equal quantity in the enumeration order of \<open>products_sold\<close>. That order is the order in
  which the skus were first accumulated for the seller when every seller, product and
  purchase record is an object, every purchase record has an \<open>items\<close> array of objects,
  no sku of a line item is an array index or the name of a property inherited from
  \<open>Object.prototype\<close>, and no \<open>seller_id\<close> that matches no seller is such a name.
\<close>

theorem top_products_properties:
  assumes "ranked_sellerStats data opts = Inr sellerStats"
    and "analyzeSalesData data opts = Inr rows"
    and "i < length rows"
  shows "length (row_top_products (rows ! i)) \<le> 10
     \<and> (numeric_counters (products_sold (sellerStats ! i)) \<longrightarrow>
          (\<exists>arranged. stable_descending (products_sold (sellerStats ! i)) arranged
             \<and> row_top_products (rows ! i) = take 10 arranged))
     \<and> (validate data = Some (map Some ss, map Some ps, map Some rs)
          \<and> (\<forall>r\<in>set rs. itemized r)
          \<and> (\<forall>r\<in>set rs. record_key r \<in> set proto_keys \<longrightarrow> record_key r \<in> seller_key ` set ss)
          \<and> (\<forall>r\<in>set rs. \<forall>it\<in>set (items_of r).
                 item_key it \<notin> set proto_keys \<and> \<not> is_array_index (item_key it)) \<longrightarrow>
          (\<exists>j<length ss. row_seller_id (rows ! i) = string_or_empty (s_id (ss ! j))
             \<and> map fst (products_sold (sellerStats ! i))
                 = first_occurrences (map (\<lambda>e. item_key (fst e)) (sold_items ps (records_of ss rs j)))))"
proof -
  have rows: "map format_row sellerStats = map Inr rows"
    using assms(1,2) analyzeSalesData_Inr [of data opts rows] by auto
  note row = formatted_nth(2) [OF rows assms(3)]
  have i: "i < length sellerStats"
    using assms(3) formatted_nth(1) [OF rows] by simp
  obtain ss' ps' rs' calcRevenue calcBonus stats where
    v: "validate data = Some (map Some ss', map Some ps', rs')" and
    agg: "aggregate calcRevenue ss' ps' rs' = Inr stats" and
    ranked: "sellerStats = assign_bonus calcBonus (array_sort by_profit stats)"
    using assms(1) by (rule ranked_sellerStats_Inr)
  let ?sorted = "array_sort by_profit stats"
  have len: "length sellerStats = length ?sorted"
    using arg_cong [OF assign_bonus_ids [of calcBonus ?sorted], of length] ranked by simp
  then have isorted: "i < length ?sorted" using i by simp
  let ?sold = "products_sold (sellerStats ! i)"
  have sold: "?sold = products_sold (?sorted ! i)"
    using nth_assign_bonus(2) [OF isorted] ranked by simp
  have top: "row_top_products (rows ! i) = top_products_of ?sold"
    using nth_assign_bonus(3) [OF isorted, of calcBonus] ranked sold format_row_Inr(6) [OF row]
    by simp
  have a: "length (row_top_products (rows ! i)) \<le> 10"
    using top by (simp add: length_top_products_of)
  have b: "numeric_counters ?sold \<longrightarrow>
          (\<exists>arranged. stable_descending ?sold arranged \<and> row_top_products (rows ! i) = take 10 arranged)"
    using top stable_descending_array_sort [of ?sold]
    by (auto simp: top_products_of_def)
  have c: "\<exists>j<length ss. row_seller_id (rows ! i) = string_or_empty (s_id (ss ! j))
             \<and> map fst ?sold
                 = first_occurrences (map (\<lambda>e. item_key (fst e)) (sold_items ps (records_of ss rs j)))"
    if valid: "validate data = Some (map Some ss, map Some ps, map Some rs)"
      and h1: "\<forall>r\<in>set rs. itemized r"
      and h2: "\<forall>r\<in>set rs. record_key r \<in> set proto_keys \<longrightarrow> record_key r \<in> seller_key ` set ss"
      and h3: "\<forall>r\<in>set rs. \<forall>it\<in>set (items_of r).
                 item_key it \<notin> set proto_keys \<and> \<not> is_array_index (item_key it)"
  proof -
    have "map Some ss' = map Some ss" "map Some ps' = map Some ps" and rs': "rs' = map Some rs"
      using v valid by simp_all
    then have same: "ss' = ss" "ps' = ps"
      by (simp_all only: inj_map_eq_map [OF inj_Some])
    have h3a: "\<forall>r\<in>set rs. \<forall>it\<in>set (items_of r). item_key it \<notin> set proto_keys"
      using h3 by blast
    have nt: "\<forall>s\<in>set (map init_stat ss). no_text (products_sold s)"
      by (simp add: init_stat_def no_text_def)
    have "aggregate calcRevenue ss ps (map Some rs)
          = Inr (map (\<lambda>(j, s). accumulate calcRevenue ps s (records_of ss rs j))
                   (enumerate 0 (map init_stat ss)))"
      unfolding aggregate_def Let_def
      using h1 h2 h3a nt by (intro process_records_accumulate) auto
    then have "aggregate calcRevenue ss ps (map Some rs)
          = Inr (map (\<lambda>(j, seller). accumulate calcRevenue ps (init_stat seller) (records_of ss rs j))
                   (enumerate 0 ss))"
      by (simp add: enumerate_map_gen comp_def case_prod_beta)
    then have stats: "stats = map (\<lambda>(j, seller). accumulate calcRevenue ps (init_stat seller) (records_of ss rs j))
                  (enumerate 0 ss)"
      using agg same rs' by simp
    have "?sorted ! i \<in> set stats"
      using isorted set_array_sort [of by_profit stats] nth_mem by blast
    then obtain j where j: "j < length ss"
      and sj: "?sorted ! i = accumulate calcRevenue ps (init_stat (ss ! j)) (records_of ss rs j)"
      unfolding stats by (auto simp: in_set_enumerate_eq)
    have "st_id (sellerStats ! i) = s_id (ss ! j)"
      using nth_assign_bonus(1) [OF isorted, of calcBonus] ranked sj
      by (simp add: accumulate_id init_stat_def)
    then have id: "row_seller_id (rows ! i) = string_or_empty (s_id (ss ! j))"
      using format_row_Inr(1) [OF row] by simp
    have no_index: "\<forall>e\<in>set (sold_items ps (records_of ss rs j)). \<not> is_array_index (item_key (fst e))"
    proof
      fix e
      assume "e \<in> set (sold_items ps (records_of ss rs j))"
      then obtain r where "r \<in> set (records_of ss rs j)" "fst e \<in> set (items_of r)"
        using sold_items_subset by blast
      then show "\<not> is_array_index (item_key (fst e))"
        using h3 by (auto simp: records_of_def)
    qed
    have "map fst ?sold = first_occurrences (map (\<lambda>e. item_key (fst e)) (sold_items ps (records_of ss rs j)))"
      using sold sj keys_foldl_add_quantity [OF no_index] by (simp add: accumulate_sold)
    with j id show ?thesis by blast
  qed
  from a b c show ?thesis by blast
qed

lemma ranked_top_eval: "ranked_sellerStats (Some data_top) (Some reference_options) = Inr ranked_top"
  by code_simp

lemma rows_top_eval: "analyzeSalesData (Some data_top) (Some reference_options) = Inr rows_top"
  by code_simp

theorem top_products_properties_witness:
  "length (row_top_products (rows_top ! 0)) \<le> 10
   \<and> (\<exists>arranged. stable_descending (products_sold (ranked_top ! 0)) arranged
         \<and> row_top_products (rows_top ! 0) = take 10 arranged)
   \<and> (\<exists>j<length [seller_1]. row_seller_id (rows_top ! 0) = string_or_empty (s_id ([seller_1] ! j))
         \<and> map fst (products_sold (ranked_top ! 0))
            = first_occurrences (map (\<lambda>e. item_key (fst e))
                (sold_items [product_1, product_2, product_3] (records_of [seller_1] [record_top] j))))"
proof -
  have i: "0 < length rows_top" by (simp add: rows_top_def)
  have numeric: "numeric_counters (products_sold (ranked_top ! 0))"
    by (simp add: ranked_top_def numeric_counters_def)
  have v: "validate (Some data_top)
           = Some (map Some [seller_1], map Some [product_1, product_2, product_3], map Some [record_top])"
    by (simp add: validate_def data_top_def)
  have h1: "\<forall>r\<in>set [record_top]. itemized r"
    by (simp add: record_top_def itemized_def)
  have h2: "\<forall>r\<in>set [record_top]. record_key r \<in> set proto_keys \<longrightarrow> record_key r \<in> seller_key ` set [seller_1]"
    by (simp add: record_top_def proto_keys_def record_key_def)
  have h3: "\<forall>r\<in>set [record_top]. \<forall>it\<in>set (items_of r).
              item_key it \<notin> set proto_keys \<and> \<not> is_array_index (item_key it)"
    by (simp add: record_top_def items_of_def item_a_def item_b_def item_c_def proto_keys_def
        is_array_index_def digit_chars_def item_key_def)
  note t = top_products_properties [OF ranked_top_eval rows_top_eval i,
      of "[seller_1]" "[product_1, product_2, product_3]" "[record_top]"]
  from t numeric v h1 h2 h3 show ?thesis by blast
qed

section \<open>What the call writes\<close>

lemma unchanged_below_refl: "unchanged_below n h h"
  by (simp add: unchanged_below_def)

lemma unchanged_below_trans:
  "unchanged_below n h h1 \<Longrightarrow> unchanged_below n h1 h2 \<Longrightarrow> unchanged_below n h h2"
  by (simp add: unchanged_below_def)

lemma unchanged_below_update: "n \<le> a \<Longrightarrow> unchanged_below n h (h[a := c])"
  by (simp add: unchanged_below_def)

lemma unchanged_below_append: "unchanged_below n h (h @ xs)" if "n \<le> length h"
  using that by (simp add: unchanged_below_def)

lemma stats_written_refl: "stats_written n h h"
  by (simp add: stats_written_def)

lemma stats_written_trans:
  assumes "stats_written n h h1" and "stats_written n h1 h2"
  shows "stats_written n h h2"
  unfolding stats_written_def
proof (intro conjI allI impI)
  show "length h2 = length h"
    using assms by (simp add: stats_written_def)
next
  fix b
  assume b: "b < length h"
  then have "h1 ! b = h ! b \<or> (n \<le> b \<and> is_stat (h ! b) \<and> is_stat (h1 ! b))"
    using assms(1) by (simp add: stats_written_def)
  moreover have "h2 ! b = h1 ! b \<or> (n \<le> b \<and> is_stat (h1 ! b) \<and> is_stat (h2 ! b))"
    using assms b by (simp add: stats_written_def)
  ultimately show "h2 ! b = h ! b \<or> (n \<le> b \<and> is_stat (h ! b) \<and> is_stat (h2 ! b))"
    by auto
qed

lemma stats_written_update_stat: "n \<le> a \<Longrightarrow> stats_written n h (update_stat h a f)"
  by (auto simp: update_stat_def stats_written_def cell_at_def nth_list_update
      split: option.splits cell.splits if_splits)

lemma stats_written_unchanged: "stats_written n h h' \<Longrightarrow> unchanged_below n h h'"
proof -
  assume w: "stats_written n h h'"
  have "take n h' ! i = take n h ! i" if "i < length (take n h')" for i
  proof -
    from that w have i: "i < n" "i < length h"
      by (simp_all add: stats_written_def)
    with w have "h' ! i = h ! i"
      by (auto simp: stats_written_def)
    with i show ?thesis by simp
  qed
  moreover have "length (take n h') = length (take n h)"
    using w by (simp add: stats_written_def)
  ultimately have "take n h' = take n h"
    by (rule_tac nth_equalityI) auto
  with w show ?thesis
    by (simp add: unchanged_below_def stats_written_def)
qed

lemma stats_written_array:
  "stats_written n h h' \<Longrightarrow> cell_at h b = Some (ArrayObj xs) \<Longrightarrow> cell_at h' b = Some (ArrayObj xs)"
  by (auto simp: stats_written_def cell_at_def split: if_splits)

lemma apply_item_store_writes:
  assumes "n \<le> seller"
  shows "stats_written n h (snd (apply_item_store cr pidx rl seller h ia))"
  using assms
  by (auto simp: apply_item_store_def Let_def stats_written_update_stat stats_written_refl
      split: option.splits cell.splits lookup.splits)

lemma apply_items_store_writes:
  assumes "n \<le> seller"
  shows "stats_written n h (snd (apply_items_store cr pidx rl seller h ias))"
proof (induction ias arbitrary: h)
  case Nil
  then show ?case by (simp add: stats_written_refl)
next
  case (Cons ia rest)
  obtain res h1 where step: "apply_item_store cr pidx rl seller h ia = (res, h1)"
    by (cases "apply_item_store cr pidx rl seller h ia")
  have u1: "stats_written n h h1"
    using apply_item_store_writes [OF assms, of h cr pidx rl ia] step by simp
  show ?case
  proof (cases res)
    case (Inl e)
    with step u1 show ?thesis by simp
  next
    case (Inr u)
    with step u1 Cons.IH [of h1] show ?thesis
      by (auto intro: stats_written_trans)
  qed
qed

lemma obj_get_Own_value: "obj_get obj k = Own v \<Longrightarrow> v \<in> snd ` set obj"
proof -
  assume "obj_get obj k = Own v"
  then have "map_of obj k = Some v" by (simp add: obj_get_Own)
  then have "(k, v) \<in> set obj" by (rule map_of_SomeD)
  then show ?thesis by force
qed

lemma apply_record_store_writes:
  assumes "\<forall>a\<in>snd ` set sidx. n \<le> a"
  shows "stats_written n h (snd (snd (apply_record_store cr pidx sidx rl h ra)))"
proof (cases "cell_at h ra")
  case None
  then show ?thesis by (simp add: apply_record_store_def stats_written_refl)
next
  case (Some c)
  show ?thesis
  proof (cases c)
    case (RecordObj sid amount its)
    show ?thesis
    proof (cases "obj_get sidx (to_string sid)")
      case Absent
      with Some RecordObj show ?thesis
        by (simp add: apply_record_store_def stats_written_refl split: option.splits)
    next
      case Inherited
      with Some RecordObj show ?thesis
        by (simp add: apply_record_store_def Let_def stats_written_refl
            split: option.splits prod.splits)
    next
      case (Own seller)
      then have a: "n \<le> seller"
        using assms obj_get_Own_value by fastforce
      let ?h1 = "update_stat h seller (\<lambda>s. s\<lparr> st_sales_count := st_sales_count s + 1,
                         st_revenue := plus_value (st_revenue s) amount \<rparr>)"
      have u1: "stats_written n h ?h1"
        using a by (rule stats_written_update_stat)
      show ?thesis
      proof (cases "array_at ?h1 its")
        case None
        with Some RecordObj Own u1 show ?thesis
          by (simp add: apply_record_store_def Let_def)
      next
        case ias: (Some ias)
        have "stats_written n ?h1 (snd (apply_items_store cr pidx rl seller ?h1 ias))"
          using a by (rule apply_items_store_writes)
        with Some RecordObj Own u1 ias show ?thesis
          by (auto simp: apply_record_store_def Let_def split: prod.splits
              intro: stats_written_trans)
      qed
    qed
  qed (use Some in \<open>simp_all add: apply_record_store_def stats_written_refl\<close>)
qed

lemma process_records_store_writes:
  assumes "\<forall>a\<in>snd ` set sidx. n \<le> a"
  shows "stats_written n h (snd (snd (process_records_store cr pidx sidx rl h ras)))"
proof (induction ras arbitrary: h rl)
  case Nil
  then show ?case by (simp add: stats_written_refl)
next
  case (Cons ra rest)
  obtain res rl1 h1 where step: "apply_record_store cr pidx sidx rl h ra = (res, rl1, h1)"
    by (cases "apply_record_store cr pidx sidx rl h ra") auto
  have u1: "stats_written n h h1"
    using apply_record_store_writes [OF assms, of h cr pidx rl ra] step by simp
  show ?case
  proof (cases res)
    case (Inl e)
    with step u1 show ?thesis by simp
  next
    case (Inr u)
    with step u1 Cons.IH [of h1 rl1] show ?thesis
      by (auto intro: stats_written_trans)
  qed
qed

lemma sort_store_unchanged: "n \<le> sa \<Longrightarrow> unchanged_below n h (sort_store h sa)"
  by (auto simp: sort_store_def unchanged_below_update unchanged_below_refl
      split: option.splits cell.splits)

lemma assign_bonus_at_unchanged: "n \<le> snd e \<Longrightarrow> unchanged_below n h (assign_bonus_at cb m h e)"
  by (cases e)
    (auto simp: assign_bonus_at_def unchanged_below_update unchanged_below_refl
      split: option.splits cell.splits)

lemma foldl_assign_bonus_unchanged:
  assumes "\<forall>e\<in>set es. n \<le> snd e"
  shows "unchanged_below n h (foldl (assign_bonus_at cb m) h es)"
  using assms
proof (induction es arbitrary: h)
  case Nil
  then show ?case by (simp add: unchanged_below_refl)
next
  case (Cons e es)
  have "unchanged_below n h (assign_bonus_at cb m h e)"
    using Cons.prems by (simp add: assign_bonus_at_unchanged)
  moreover have "unchanged_below n (assign_bonus_at cb m h e) (foldl (assign_bonus_at cb m) (assign_bonus_at cb m h e) es)"
    using Cons by simp
  ultimately show ?case
    by (auto intro: unchanged_below_trans)
qed

lemma assign_bonus_store_unchanged:
  assumes "\<forall>a\<in>set xs. n \<le> a"
  shows "unchanged_below n h (assign_bonus_store cb h xs)"
  unfolding assign_bonus_store_def
  using assms by (intro foldl_assign_bonus_unchanged) (auto simp: in_set_enumerate_eq)

lemma create_result_unchanged: "n \<le> length h \<Longrightarrow> unchanged_below n h (snd (create_result h rows))"
  by (simp add: create_result_def Let_def unchanged_below_def)

lemma sort_store_array:
  assumes "cell_at h sa = Some (ArrayObj xs)"
  shows "\<exists>ys. array_at (sort_store h sa) (Some sa) = Some ys \<and> set ys = set xs"
  using assms
  by (auto simp: sort_store_def array_at_def cell_at_def set_array_sort split: if_splits)

lemma rank_and_format_unchanged:
  assumes "cell_at h sa = Some (ArrayObj xs)" and "\<forall>a\<in>set xs. n \<le> a" and "n \<le> sa"
  shows "unchanged_below n h (snd (rank_and_format cb h sa))"
proof -
  let ?h1 = "sort_store h sa"
  obtain ys where ys: "array_at ?h1 (Some sa) = Some ys" "set ys = set xs"
    using sort_store_array [OF assms(1)] by blast
  let ?h2 = "assign_bonus_store cb ?h1 ys"
  have u1: "unchanged_below n h ?h1"
    using assms(3) by (rule sort_store_unchanged)
  have u2: "unchanged_below n ?h1 ?h2"
    using assms(2) ys(2) by (intro assign_bonus_store_unchanged) simp
  have u12: "unchanged_below n h ?h2"
    using u1 u2 by (rule unchanged_below_trans)
  have len: "n \<le> length ?h2"
    using assms(1,3) u12 by (auto simp: unchanged_below_def cell_at_def split: if_splits)
  show ?thesis
  proof (cases "collect (map (\<lambda>a. row_of_cell (cell_at ?h2 a)) ys)")
    case (Inl e)
    with ys u12 show ?thesis by (simp add: rank_and_format_def Let_def)
  next
    case (Inr rows)
    have "unchanged_below n ?h2 (snd (create_result ?h2 rows))"
      using len by (rule create_result_unchanged)
    with Inr ys u12 show ?thesis
      by (auto simp: rank_and_format_def Let_def intro: unchanged_below_trans)
  qed
qed

lemma fold_define_values:
  "snd ` set (foldl (\<lambda>obj (k, v). obj_define obj k v) obj es) \<subseteq> snd ` set obj \<union> snd ` set es"
proof (induction es arbitrary: obj)
  case Nil
  then show ?case by simp
next
  case (Cons e es)
  obtain k v where e: "e = (k, v)" by (cases e)
  have "snd ` set (obj_define obj k v) \<subseteq> insert v (snd ` set obj)"
    by (rule values_obj_define)
  moreover have "snd ` set (foldl (\<lambda>obj (k, v). obj_define obj k v) (obj_define obj k v) es)
      \<subseteq> snd ` set (obj_define obj k v) \<union> snd ` set es"
    by (rule Cons.IH)
  ultimately have "snd ` set (foldl (\<lambda>obj (k, v). obj_define obj k v) (obj_define obj k v) es)
      \<subseteq> insert v (snd ` set obj) \<union> snd ` set es"
    by blast
  then show ?case by (simp add: e)
qed

lemma sellerIndex_store_values: "snd ` set (sellerIndex_store h stats) \<subseteq> set stats"
proof -
  let ?es = "map (\<lambda>a. (case stat_at h a of Some s \<Rightarrow> stat_key s | None \<Rightarrow> [], a)) stats"
  have "snd ` set (fromEntries ?es) \<subseteq> snd ` set ?es"
    using fold_define_values [of "[]" ?es] by (simp add: fromEntries_def)
  moreover have "snd ` set ?es \<subseteq> set stats"
    by auto
  ultimately show ?thesis
    unfolding sellerIndex_store_def by (rule subset_trans)
qed

lemma analyze_valid_unchanged:
  "unchanged_below (length h) h (snd (snd (analyze_valid cr cb rl h ss ps rs)))"
proof (cases "those (map (seller_at h) ss)")
  case None
  then show ?thesis by (simp add: analyze_valid_def unchanged_below_refl)
next
  case (Some xs)
  let ?n = "length h"
  let ?stats = "[?n ..< ?n + length xs]"
  let ?h0 = "h @ map (\<lambda>seller. StatObj (init_stat seller) None) xs"
  let ?sa = "length ?h0"
  let ?h1 = "?h0 @ [ArrayObj ?stats]"
  have created: "create_sellerStats h xs = (?stats, ?sa, ?h1)"
    by (simp add: create_sellerStats_def Let_def)
  have u1: "unchanged_below ?n h ?h1"
    by (simp add: unchanged_below_def)
  show ?thesis
  proof (cases "those (map (product_at ?h1) ps)")
    case None
    with Some created u1 show ?thesis by (simp add: analyze_valid_def)
  next
    case ys: (Some ys)
    let ?sidx = "sellerIndex_store ?h1 ?stats"
    let ?pidx = "productIndex_store ys ps"
    obtain res rl2 h2 where run: "process_records_store cr ?pidx ?sidx rl ?h1 rs = (res, rl2, h2)"
      by (cases "process_records_store cr ?pidx ?sidx rl ?h1 rs") auto
    have fresh: "\<forall>a\<in>snd ` set ?sidx. ?n \<le> a"
      using sellerIndex_store_values [of ?h1 ?stats] by auto
    have w: "stats_written ?n ?h1 h2"
      using process_records_store_writes [OF fresh, of ?h1 cr ?pidx rl rs] run by simp
    then have u2: "unchanged_below ?n h h2"
      using u1 by (auto dest!: stats_written_unchanged intro: unchanged_below_trans)
    show ?thesis
    proof (cases res)
      case (Inl e)
      with Some created ys run u2 show ?thesis by (simp add: analyze_valid_def)
    next
      case (Inr u)
      have "cell_at ?h1 ?sa = Some (ArrayObj ?stats)"
        by (simp add: cell_at_def nth_append)
      then have arr: "cell_at h2 ?sa = Some (ArrayObj ?stats)"
        using w by (rule stats_written_array [rotated])
      have "unchanged_below ?n h2 (snd (rank_and_format cb h2 ?sa))"
        using arr by (rule rank_and_format_unchanged) auto
      with Inr Some created ys run u2 show ?thesis
        by (auto simp: analyze_valid_def split: prod.splits intro: unchanged_below_trans)
    qed
  qed
qed

text \<open>
  Whatever the realm, the store, the references \<open>data\<close> and \<open>options\<close> and the outcome of
  the call, every cell that the store holds before the call is the same after it: the
  own properties of the arguments are not written.
\<close>

lemma stored_cells_unchanged:
  assumes "analyzeSalesData_store rl h data opts = (res, rl', h')"
  shows "length h \<le> length h' \<and> take (length h) h' = h"
proof -
  have "unchanged_below (length h) h (snd (snd (analyzeSalesData_store rl h data opts)))"
    using analyze_valid_unchanged
    by (auto simp: analyzeSalesData_store_def unchanged_below_refl
        split: option.splits prod.splits)
  with assms show ?thesis by (simp add: unchanged_below_def)
qed

lemma store_1_eval:
  "analyzeSalesData_store pristine store_1 (Some 8) (Some 9) = (Inr 13, pristine, final_1)"
  by (simp add: analyzeSalesData_store_def validate_store_def cell_at_def array_at_def
      options_at_def analyze_valid_def seller_at_def product_at_def stat_at_def
      create_sellerStats_def sellerIndex_store_def productIndex_store_def
      fromEntries_def obj_define_def obj_get_def proto_keys_def
      apply_record_store_def apply_item_store_def update_stat_def
      rank_and_format_def sort_store_def array_sort_def profit_at_def
      assign_bonus_store_def assign_bonus_at_def row_of_cell_def create_result_def
      format_row_def fixed2_def string_or_empty_def plus_value_def
      isNaN_def round2_def half_up_def top_products_of_def
      count_sold_def read_counter_pristine obj_assign_def num_truthy_def by_quantity_def js_sub_def
      init_stat_def calculateSimpleRevenue_def calculateBonusByProfit_def
      stat_key_def product_key_def item_key_def text_added_pristine
      store_1_def final_1_def reference_options_def seller_1_def product_1_def item_1_def
      upt_rec Let_def)

text \<open>
  The realm changes only through a purchase record whose \<open>seller_id\<close> is one of the
  names of \<open>proto_keys\<close>: when the store holds no such record, the realm after the call
  is the realm before it.
\<close>

lemma apply_record_store_realm:
  assumes "\<forall>sid amount its. cell_at h ra = Some (RecordObj sid amount its)
             \<longrightarrow> to_string sid \<notin> set proto_keys"
  shows "fst (snd (apply_record_store cr pidx sidx rl h ra)) = rl"
proof (cases "cell_at h ra")
  case None
  then show ?thesis by (simp add: apply_record_store_def)
next
  case (Some c)
  show ?thesis
  proof (cases c)
    case (RecordObj sid amount its)
    with Some assms have "to_string sid \<notin> set proto_keys" by simp
    then have "obj_get sidx (to_string sid) \<noteq> Inherited"
      by (simp add: obj_get_Inherited)
    with Some RecordObj show ?thesis
      by (cases "obj_get sidx (to_string sid)")
        (simp_all add: apply_record_store_def Let_def split: option.splits prod.splits)
  qed (use Some in \<open>simp_all add: apply_record_store_def\<close>)
qed

lemma stats_written_record:
  assumes "stats_written n h h'" and "cell_at h' ra = Some (RecordObj sid amount its)"
  shows "cell_at h ra = Some (RecordObj sid amount its)"
proof -
  from assms have ra: "ra < length h" "h' ! ra = RecordObj sid amount its"
    by (auto simp: stats_written_def cell_at_def split: if_splits)
  then have "h' ! ra = h ! ra \<or> is_stat (h' ! ra)"
    using assms(1) by (auto simp: stats_written_def)
  with ra show ?thesis by (auto simp: cell_at_def)
qed

lemma process_records_store_realm:
  assumes "\<forall>a\<in>snd ` set sidx. n \<le> a"
    and "\<forall>ra sid amount its. cell_at h ra = Some (RecordObj sid amount its)
           \<longrightarrow> to_string sid \<notin> set proto_keys"
  shows "fst (snd (process_records_store cr pidx sidx rl h ras)) = rl"
  using assms(2)
proof (induction ras arbitrary: h)
  case Nil
  then show ?case by simp
next
  case (Cons ra rest)
  obtain res rl1 h1 where step: "apply_record_store cr pidx sidx rl h ra = (res, rl1, h1)"
    by (cases "apply_record_store cr pidx sidx rl h ra") auto
  have rl1: "rl1 = rl"
    using apply_record_store_realm [of h ra cr pidx sidx rl] Cons.prems step by simp
  have w: "stats_written n h h1"
    using apply_record_store_writes [OF assms(1), of h cr pidx rl ra] step by simp
  have keep: "\<forall>ra sid amount its. cell_at h1 ra = Some (RecordObj sid amount its)
           \<longrightarrow> to_string sid \<notin> set proto_keys"
    using Cons.prems stats_written_record [OF w] by blast
  show ?case
  proof (cases res)
    case (Inl e)
    with step rl1 show ?thesis by simp
  next
    case (Inr u)
    with step rl1 Cons.IH [OF keep] show ?thesis by simp
  qed
qed

lemma analyze_valid_realm:
  assumes "\<forall>ra sid amount its. cell_at h ra = Some (RecordObj sid amount its)
           \<longrightarrow> to_string sid \<notin> set proto_keys"
  shows "fst (snd (analyze_valid cr cb rl h ss ps rs)) = rl"
proof (cases "those (map (seller_at h) ss)")
  case None
  then show ?thesis by (simp add: analyze_valid_def)
next
  case (Some xs)
  let ?n = "length h"
  let ?stats = "[?n ..< ?n + length xs]"
  let ?h0 = "h @ map (\<lambda>seller. StatObj (init_stat seller) None) xs"
  let ?sa = "length ?h0"
  let ?h1 = "?h0 @ [ArrayObj ?stats]"
  have created: "create_sellerStats h xs = (?stats, ?sa, ?h1)"
    by (simp add: create_sellerStats_def Let_def)
  have keep: "to_string sid \<notin> set proto_keys"
    if c: "cell_at ?h1 ra = Some (RecordObj sid amount its)" for ra sid amount its
  proof -
    have "ra < length h"
    proof (rule ccontr)
      assume "\<not> ra < length h"
      then have "ra < length ?h1 \<longrightarrow> is_stat (?h1 ! ra) \<or> ?h1 ! ra = ArrayObj ?stats"
        by (auto simp: nth_append not_less less_Suc_eq_le)
      with c show False
        by (auto simp: cell_at_def split: if_splits)
    qed
    with c have "cell_at h ra = Some (RecordObj sid amount its)"
      by (simp add: cell_at_def nth_append)
    with assms show ?thesis by blast
  qed
  show ?thesis
  proof (cases "those (map (product_at ?h1) ps)")
    case None
    with Some created show ?thesis by (simp add: analyze_valid_def)
  next
    case ys: (Some ys)
    let ?sidx = "sellerIndex_store ?h1 ?stats"
    let ?pidx = "productIndex_store ys ps"
    have fresh: "\<forall>a\<in>snd ` set ?sidx. ?n \<le> a"
      using sellerIndex_store_values [of ?h1 ?stats] by auto
    have "fst (snd (process_records_store cr ?pidx ?sidx rl ?h1 rs)) = rl"
      using fresh keep by (intro process_records_store_realm) blast+
    with Some created ys show ?thesis
      by (auto simp: analyze_valid_def split: prod.splits sum.splits)
  qed
qed

lemma realm_unchanged:
  assumes "analyzeSalesData_store rl h data opts = (res, rl', h')"
    and "\<forall>ra sid amount its. cell_at h ra = Some (RecordObj sid amount its)
           \<longrightarrow> to_string sid \<notin> set proto_keys"
  shows "rl' = rl"
proof -
  have "fst (snd (analyzeSalesData_store rl h data opts)) = rl"
    using analyze_valid_realm [OF assms(2)]
    by (auto simp: analyzeSalesData_store_def split: option.splits prod.splits)
  with assms(1) show ?thesis by simp
qed

text \<open>
  Claim C10 says that all accumulation happens in the objects that the call creates. A
  purchase record whose \<open>seller_id\<close> is \<open>__proto__\<close> passes validation, and the test
  \<open>if (!seller) return\<close> of line 80, which is there to skip a record whose seller is not
  found, finds \<open>Object.prototype\<close>: lines 81 and 82 add \<open>sales_count\<close> and \<open>revenue\<close> to
  it. The call returns a result, the cells of the arguments are as they were, and the
  realm is not: every object now inherits the two properties.
\<close>

theorem builtin_object_written:
  "analyzeSalesData_store pristine store_proto (Some 7) (Some 8) = (Inr 12, realm_proto, final_proto)
   \<and> realm_proto ''__proto__'' = [(''sales_count'', NaN_written), (''revenue'', NaN_written)]
   \<and> pristine ''__proto__'' = []
   \<and> take (length store_proto) final_proto = store_proto"
proof -
  have "analyzeSalesData_store pristine store_proto (Some 7) (Some 8) = (Inr 12, realm_proto, final_proto)"
    by (simp add: analyzeSalesData_store_def validate_store_def cell_at_def array_at_def
      options_at_def analyze_valid_def seller_at_def product_at_def stat_at_def
      create_sellerStats_def sellerIndex_store_def productIndex_store_def
      fromEntries_def obj_define_def obj_get_def proto_keys_def
      apply_record_store_def builtin_sale_def builtin_add_def builtin_read_def
      added_pristine pristine_def added_def is_array_index_def digit_chars_def
      rank_and_format_def sort_store_def array_sort_def profit_at_def
      assign_bonus_store_def assign_bonus_at_def row_of_cell_def create_result_def
      format_row_def fixed2_def string_or_empty_def
      isNaN_def round2_def half_up_def top_products_of_def
      by_quantity_def js_sub_def
      init_stat_def calculateSimpleRevenue_def calculateBonusByProfit_def
      stat_key_def product_key_def
      store_proto_def final_proto_def realm_proto_def reference_options_def seller_1_def
      product_1_def upt_rec Let_def)
  then show ?thesis
    by (simp add: realm_proto_def pristine_def store_proto_def final_proto_def)
qed

end
